theory Spec2Isabelle
  imports Main "HOL-Library.Multiset"
begin

section \<open>The docking layout tree\<close>

text \<open>
  The dock manager exists twice in the sources: as the static class \<open>CDockManager\<close>
  (\<open>splitPanel\<close>, \<open>dockForm\<close>, \<open>clone\<close>) and as the hook \<open>useDockManager\<close>
  (\<open>split\<close>, \<open>stack\<close>, \<open>clone\<close>). The helpers \<open>_findForm\<close>, \<open>_findLayoutItem\<close>,
  \<open>_replace\<close> and \<open>_occupyFreeSpace\<close> are the same text in both and are embedded once.

  A form's \<open>children\<close> and \<open>icon\<close> are React nodes the manager never looks at: the type
  parameter \<open>'c\<close> stands for them.
\<close>

record 'c CDockForm =
  form_id :: string
  title :: string
  children :: "'c option"
  icon :: "'c option"

datatype DockLayoutDirection = Horizontal | Vertical

text \<open>
  \<open>CDockLayoutItem\<close> with its two subclasses; the field \<open>type\<close> is the constructor.
  \<open>size\<close> is a JavaScript number; the manager only ever stores the default 50.
\<close>

datatype 'c CDockLayoutItem =
    CDockPanel string "'c CDockForm list"
  | CDockSplitter string "'c CDockLayoutItem" "'c CDockLayoutItem" DockLayoutDirection int

fun item_id :: "'c CDockLayoutItem \<Rightarrow> string" where
  "item_id (CDockPanel i fs) = i"
| "item_id (CDockSplitter i p s d z) = i"

fun is_Splitter :: "'c CDockLayoutItem \<Rightarrow> bool" where
  "is_Splitter (CDockSplitter i p s d z) = True"
| "is_Splitter (CDockPanel i fs) = False"

text \<open>\<open>x.type === Panel\<close> and \<open>(x as CDockPanel).forms.length === 0\<close>.\<close>

fun is_empty_Panel :: "'c CDockLayoutItem \<Rightarrow> bool" where
  "is_empty_Panel (CDockPanel i fs) = (fs = [])"
| "is_empty_Panel (CDockSplitter i p s d z) = False"

subsection \<open>Object references\<close>

text \<open>
  The code works on one mutable object graph and passes references to its nodes around.
  As long as that graph is a tree, a node object is identified by the way to it from the
  root, so a reference is modelled as that path, and the whole graph as the tree value
  of the root. \<open>deref\<close> reads the object behind a reference, \<open>assign\<close> overwrites the
  slot a reference stands for (\<open>parent.primary = x\<close> is
  \<open>assign (parent @ [Primary]) x\<close>).
\<close>

datatype slot = Primary | Secondary

type_synonym ref = "slot list"

fun deref :: "'c CDockLayoutItem \<Rightarrow> ref \<Rightarrow> 'c CDockLayoutItem option" where
  "deref t [] = Some t"
| "deref (CDockSplitter i p s d z) (Primary # r) = deref p r"
| "deref (CDockSplitter i p s d z) (Secondary # r) = deref s r"
| "deref (CDockPanel i fs) (x # r) = None"

fun assign :: "ref \<Rightarrow> 'c CDockLayoutItem \<Rightarrow> 'c CDockLayoutItem \<Rightarrow> 'c CDockLayoutItem" where
  "assign [] new t = new"
| "assign (Primary # r) new (CDockSplitter i p s d z) = CDockSplitter i (assign r new p) s d z"
| "assign (Secondary # r) new (CDockSplitter i p s d z) = CDockSplitter i p (assign r new s) d z"
| "assign (x # r) new (CDockPanel i fs) = CDockPanel i fs"

subsection \<open>Array helpers of the JavaScript runtime\<close>

text \<open>\<open>xs.findIndex(P)\<close>: the first index satisfying \<open>P\<close>, or -1.\<close>

fun findIndex :: "('a \<Rightarrow> bool) \<Rightarrow> 'a list \<Rightarrow> int" where
  "findIndex P [] = - 1"
| "findIndex P (x # xs) =
     (if P x then 0 else (let i = findIndex P xs in if i < 0 then - 1 else i + 1))"

text \<open>\<open>xs.splice(index, 1)\<close>: a negative index counts from the end.\<close>

definition splice1 :: "int \<Rightarrow> 'a list \<Rightarrow> 'a list" where
  "splice1 i xs =
     (let n = int (length xs);
          start = (if i < 0 then max (n + i) 0 else min i n)
      in take (nat start) xs @ drop (nat start + 1) xs)"

subsection \<open>Identifiers\<close>

text \<open>
  \<open>_hash(prefix)\<close> is \<open>`${prefix}-${++counter}`\<close>: the counter is part of the state, and
  the number is printed in decimal (the counter is a natural number here; the
  JavaScript number counts exactly up to \<open>2^53\<close>).
\<close>

definition digit_char :: "nat \<Rightarrow> char" where
  "digit_char d = char_of (48 + d)"

fun decimal :: "nat \<Rightarrow> string" where
  "decimal n = (if n < 10 then [digit_char n] else decimal (n div 10) @ [digit_char (n mod 10)])"

declare decimal.simps [simp del]

definition hash :: "string \<Rightarrow> nat \<Rightarrow> string \<times> nat" where
  "hash prefix counter = (prefix @ ''-'' @ decimal (Suc counter), Suc counter)"

definition createPanel :: "'c CDockForm list \<Rightarrow> nat \<Rightarrow> 'c CDockLayoutItem \<times> nat" where
  "createPanel forms counter = (let (i, c) = hash ''dmp'' counter in (CDockPanel i forms, c))"

definition createSplitter ::
  "'c CDockLayoutItem \<Rightarrow> 'c CDockLayoutItem \<Rightarrow> DockLayoutDirection \<Rightarrow> int \<Rightarrow> nat
     \<Rightarrow> 'c CDockLayoutItem \<times> nat" where
  "createSplitter primary secondary direction sz counter =
     (let (i, c) = hash ''dms'' counter in (CDockSplitter i primary secondary direction sz, c))"

subsection \<open>Locating forms and nodes\<close>

text \<open>
  \<open>_findForm(formId, layoutItem)\<close> returns the form and the panel object that holds it;
  \<open>here\<close> is the reference of \<open>layoutItem\<close>.
\<close>

fun findForm :: "string \<Rightarrow> 'c CDockLayoutItem \<Rightarrow> ref \<Rightarrow> ('c CDockForm \<times> ref) option" where
  "findForm formId (CDockPanel i forms) here =
     (case find (\<lambda>f. form_id f = formId) forms of
        Some form \<Rightarrow> Some (form, here)
      | None \<Rightarrow> None)"
| "findForm formId (CDockSplitter i p s d z) here =
     (case findForm formId p (here @ [Primary]) of
        Some r \<Rightarrow> Some r
      | None \<Rightarrow> findForm formId s (here @ [Secondary]))"

text \<open>
  \<open>_findLayoutItem(searchId, layoutItem, parent, grandparent)\<close> returns the triple
  \<open>[found, parent, grandparent]\<close>, or three nulls (\<open>None\<close>).
\<close>

fun findLayoutItem ::
  "string \<Rightarrow> 'c CDockLayoutItem \<Rightarrow> ref \<Rightarrow> ref option \<Rightarrow> ref option
     \<Rightarrow> (ref \<times> ref option \<times> ref option) option" where
  "findLayoutItem searchId (CDockPanel i forms) here parent grandparent =
     (if searchId = i then Some (here, parent, grandparent) else None)"
| "findLayoutItem searchId (CDockSplitter i p s d z) here parent grandparent =
     (if searchId = i then Some (here, parent, grandparent)
      else (case findLayoutItem searchId p (here @ [Primary]) (Some here) parent of
              Some r \<Rightarrow> Some r
            | None \<Rightarrow> findLayoutItem searchId s (here @ [Secondary]) (Some here) parent))"

text \<open>
  The in-place update of a panel's \<open>forms\<close> array. A reference that does not lead to a
  panel has no \<open>forms\<close>: reading it gives \<open>None\<close>.
\<close>

definition forms_at :: "'c CDockLayoutItem \<Rightarrow> ref \<Rightarrow> 'c CDockForm list option" where
  "forms_at root r =
     (case deref root r of Some (CDockPanel i forms) \<Rightarrow> Some forms | _ \<Rightarrow> None)"

definition set_forms :: "ref \<Rightarrow> 'c CDockForm list \<Rightarrow> 'c CDockLayoutItem \<Rightarrow> 'c CDockLayoutItem" where
  "set_forms r forms root =
     (case deref root r of
        Some (CDockPanel i old) \<Rightarrow> assign r (CDockPanel i forms) root
      | _ \<Rightarrow> root)"

text \<open>
  \<open>_extractForm(root, formId)\<close> removes the form from its panel and returns it with the
  panel; the first component is the object graph after the removal.
\<close>

definition extractForm ::
  "'c CDockLayoutItem \<Rightarrow> string \<Rightarrow> 'c CDockLayoutItem \<times> ('c CDockForm \<times> ref) option" where
  "extractForm root formId =
     (case findForm formId root [] of
        Some (form, source) \<Rightarrow>
          (case forms_at root source of
             Some forms \<Rightarrow>
               (let index = findIndex (\<lambda>f. form_id f = formId) forms
                in (set_forms source (splice1 index forms) root, Some (form, source)))
           | None \<Rightarrow> (root, Some (form, source)))
      | None \<Rightarrow> (root, None))"

subsection \<open>Free-space reclamation\<close>

text \<open>
  \<open>_replace(root, remove, replace)\<close> looks the splitter \<open>remove\<close> up again by its id and
  rewrites the slot of the parent it finds. The result is the object graph and the
  reference the function returns: \<open>root\<close> is \<open>[]\<close>, \<open>replace\<close> is the reference given.
\<close>

definition replace ::
  "'c CDockLayoutItem \<Rightarrow> ref \<Rightarrow> ref \<Rightarrow> ('c CDockLayoutItem \<times> ref) option" where
  "replace root remove repl =
     (case (deref root remove, deref root repl) of
        (Some removed, Some replacement) \<Rightarrow>
          (case findLayoutItem (item_id removed) root [] None None of
             Some (found, Some parent, grandparent) \<Rightarrow>
               (case (deref root found, deref root parent) of
                  (Some f, Some (CDockSplitter i p s d z)) \<Rightarrow>
                    if item_id f = item_id p
                      then Some (assign (parent @ [Primary]) replacement root, [])
                    else if item_id f = item_id s
                      then Some (assign (parent @ [Secondary]) replacement root, [])
                    else Some (root, [])
                | _ \<Rightarrow> None)
           | _ \<Rightarrow> Some (root, repl))
      | _ \<Rightarrow> None)"

text \<open>
  \<open>_occupyFreeSpace(root, start)\<close>. The recursive calls are made for their effect on
  the object graph only (their results are dropped); \<open>splitter.primary\<close> and
  \<open>splitter.secondary\<close> are read again after each call, as the code does. \<open>None\<close>
  stands for a call that does not return, or whose \<open>start\<close> is no longer where the
  reference says (the graph has stopped being a tree).
\<close>

partial_function (option) occupyFreeSpace ::
  "'c CDockLayoutItem \<Rightarrow> ref \<Rightarrow> ('c CDockLayoutItem \<times> ref) option" where
  "occupyFreeSpace root start =
     (case deref root start of
        None \<Rightarrow> None
      | Some (CDockPanel i forms) \<Rightarrow> Some (root, [])
      | Some (CDockSplitter i p s d z) \<Rightarrow>
          Option.bind
            (if is_Splitter p
               then Option.bind (occupyFreeSpace root (start @ [Primary])) (\<lambda>r. Some (fst r))
               else Some root)
            (\<lambda>root1.
               (case deref root1 start of
                  Some (CDockSplitter i1 p1 s1 d1 z1) \<Rightarrow>
                    Option.bind
                      (if is_Splitter s1
                         then Option.bind (occupyFreeSpace root1 (start @ [Secondary]))
                                (\<lambda>r. Some (fst r))
                         else Some root1)
                      (\<lambda>root2.
                         (case deref root2 start of
                            Some (CDockSplitter i2 p2 s2 d2 z2) \<Rightarrow>
                              if is_empty_Panel p2 then replace root2 start (start @ [Secondary])
                              else if is_empty_Panel s2 then replace root2 start (start @ [Primary])
                              else Some (root2, [])
                          | _ \<Rightarrow> None))
                | _ \<Rightarrow> None)))"

declare occupyFreeSpace.simps [code]

text \<open>The call site \<open>root = _occupyFreeSpace(root, root)\<close>.\<close>

definition reclaim :: "'c CDockLayoutItem \<Rightarrow> 'c CDockLayoutItem option" where
  "reclaim root = Option.bind (occupyFreeSpace root []) (\<lambda>(root', r). deref root' r)"

subsection \<open>Splitting and stacking: the static class\<close>

text \<open>
  The part that \<open>CDockManager.splitPanel\<close> and the hook's \<open>split\<close> share (the same
  statements up to the names of the variables), from the lookup of the destination to
  the reclamation: the destination is looked up in the graph the form has already been
  taken out of; when it is there, a new panel and a new splitter are created and the
  splitter is put where the destination was (\<open>root = newSplitter\<close> when it had no
  parent); the reclamation runs in either case.
\<close>

definition insertSplitter ::
  "'c CDockLayoutItem \<Rightarrow> 'c CDockForm \<Rightarrow> string \<Rightarrow> DockLayoutDirection \<Rightarrow> nat
     \<Rightarrow> ('c CDockLayoutItem \<times> nat) option" where
  "insertSplitter root form destPanelId direction counter =
     (case findLayoutItem destPanelId root [] None None of
        Some (panel, parent, grandparent) \<Rightarrow>
          (case deref root panel of
             Some panelObj \<Rightarrow>
               (let (newPanel, c1) = createPanel [form] counter;
                    (newSplitter, c2) = createSplitter panelObj newPanel direction 50 c1
                in (case parent of
                      Some par \<Rightarrow>
                        (case deref root par of
                           Some (CDockSplitter i p s d z) \<Rightarrow>
                             if item_id p = item_id panelObj
                               then map_option (\<lambda>r. (r, c2))
                                      (reclaim (assign (par @ [Primary]) newSplitter root))
                             else if item_id s = item_id panelObj
                               then map_option (\<lambda>r. (r, c2))
                                      (reclaim (assign (par @ [Secondary]) newSplitter root))
                             else map_option (\<lambda>r. (r, c2)) (reclaim root)
                         | _ \<Rightarrow> None)
                    | None \<Rightarrow> map_option (\<lambda>r. (r, c2)) (reclaim newSplitter)))
           | None \<Rightarrow> None)
      | None \<Rightarrow> map_option (\<lambda>r. (r, counter)) (reclaim root))"

text \<open>\<open>CDockManager.splitPanel(root, formId, destPanelId, direction)\<close>, with the static counter.\<close>

definition splitPanel ::
  "'c CDockLayoutItem \<Rightarrow> string \<Rightarrow> string \<Rightarrow> DockLayoutDirection \<Rightarrow> nat
     \<Rightarrow> ('c CDockLayoutItem \<times> nat) option" where
  "splitPanel root formId destPanelId direction counter =
     (case extractForm root formId of
        (root1, Some (form, source)) \<Rightarrow> insertSplitter root1 form destPanelId direction counter
      | (root1, None) \<Rightarrow> Some (root1, counter))"

text \<open>
  The only exception the manager can raise: \<open>(destination as CDockPanel).forms.push(form)\<close>
  on a destination that is a splitter reads \<open>push\<close> from \<open>undefined\<close>.
\<close>

datatype error = TypeError

text \<open>\<open>CDockManager.dockForm(root, formId, panelId)\<close>.\<close>

definition dockForm ::
  "'c CDockLayoutItem \<Rightarrow> string \<Rightarrow> string \<Rightarrow> (error + 'c CDockLayoutItem) option" where
  "dockForm root formId panelId =
     (case extractForm root formId of
        (root1, extracted) \<Rightarrow>
          (case (extracted, findLayoutItem panelId root1 [] None None) of
             (Some (form, source), Some (destination, parent, grandparent)) \<Rightarrow>
               (case forms_at root1 destination of
                  Some forms \<Rightarrow>
                    map_option Inr (reclaim (set_forms destination (forms @ [form]) root1))
                | None \<Rightarrow> Some (Inl TypeError))
           | _ \<Rightarrow> Some (Inr root1)))"

subsection \<open>Splitting and stacking: the hook\<close>

text \<open>
  The hook keeps the layout in React state and the counter in a ref; \<open>split\<close> and
  \<open>stack\<close> are state updaters, modelled as functions from the state to the next state.
  The final \<open>{ ...layout }\<close> copies the root object and keeps its fields, so it is the
  same tree value.
\<close>

definition split ::
  "'c CDockLayoutItem \<Rightarrow> string \<Rightarrow> string \<Rightarrow> DockLayoutDirection \<Rightarrow> nat
     \<Rightarrow> ('c CDockLayoutItem \<times> nat) option" where
  "split layout formId destPanelId direction counter =
     (case findForm formId layout [] of
        Some (form, panel) \<Rightarrow>
          (case deref layout panel of
             Some (CDockPanel i forms) \<Rightarrow>
               if i = destPanelId \<and> length forms \<le> 1 then Some (layout, counter)
               else
                 (let index = findIndex (\<lambda>f. form_id f = formId) forms
                  in insertSplitter (set_forms panel (splice1 index forms) layout)
                       form destPanelId direction counter)
           | _ \<Rightarrow> None)
      | None \<Rightarrow> Some (layout, counter))"

text \<open>
  \<open>stack\<close> reads two variables: \<open>layout\<close>, the state of the render that created the
  callback, in which it looks for the form and which it reclaims, and \<open>prev\<close>, the
  argument of the updater, in which it looks for the destination. In a callback of the
  current render both are the same root object (\<open>Current\<close>). In an older callback
  (a second call in one handler, a callback kept across renders) \<open>layout\<close> is an older
  root object, given by the value of its object graph at the time of the call
  (\<open>Stale\<close>).
\<close>

datatype 'c closure = Current | Stale "'c CDockLayoutItem"

text \<open>
  Panel objects of the two graphs that carry the same id are one panel object or shallow
  copies of one (\<open>{ ...layout }\<close> copies the reference of \<open>forms\<close>), so they hold the
  same array: a \<open>splice\<close> or \<open>push\<close> through one graph shows in the other.
  \<open>share_forms i forms t\<close> is the graph \<open>t\<close> after the array of the panels with the id
  \<open>i\<close> has become \<open>forms\<close>.
\<close>

fun share_forms ::
  "string \<Rightarrow> 'c CDockForm list \<Rightarrow> 'c CDockLayoutItem \<Rightarrow> 'c CDockLayoutItem" where
  "share_forms i forms (CDockPanel j old) =
     (if j = i then CDockPanel j forms else CDockPanel j old)"
| "share_forms i forms (CDockSplitter j p s d z) =
     CDockSplitter j (share_forms i forms p) (share_forms i forms s) d z"

definition stack ::
  "'c closure \<Rightarrow> 'c CDockLayoutItem \<Rightarrow> string \<Rightarrow> string
     \<Rightarrow> (error + 'c CDockLayoutItem) option" where
  "stack closure prev formId panelId =
     (case closure of
        Current \<Rightarrow>
          (let (prev1, extracted) =
                 (case findForm formId prev [] of
                    Some (form, panel) \<Rightarrow>
                      (case forms_at prev panel of
                         Some forms \<Rightarrow>
                           (let index = findIndex (\<lambda>f. form_id f = formId) forms
                            in (set_forms panel (splice1 index forms) prev, Some form))
                       | None \<Rightarrow> (prev, Some form))
                  | None \<Rightarrow> (prev, None))
           in (case (extracted, findLayoutItem panelId prev1 [] None None) of
                 (Some form, Some (destination, parent, grandparent)) \<Rightarrow>
                   (case forms_at prev1 destination of
                      Some forms \<Rightarrow>
                        map_option Inr (reclaim (set_forms destination (forms @ [form]) prev1))
                    | None \<Rightarrow> Some (Inl TypeError))
               | _ \<Rightarrow> Some (Inr prev1)))
      | Stale layout \<Rightarrow>
          (let (layout1, prev1, extracted) =
                 (case findForm formId layout [] of
                    Some (form, panel) \<Rightarrow>
                      (case deref layout panel of
                         Some (CDockPanel i forms) \<Rightarrow>
                           (let index = findIndex (\<lambda>f. form_id f = formId) forms;
                                rest = splice1 index forms
                            in (set_forms panel rest layout, share_forms i rest prev, Some form))
                       | _ \<Rightarrow> (layout, prev, Some form))
                  | None \<Rightarrow> (layout, prev, None))
           in (case (extracted, findLayoutItem panelId prev1 [] None None) of
                 (Some form, Some (destination, parent, grandparent)) \<Rightarrow>
                   (case deref prev1 destination of
                      Some (CDockPanel j forms) \<Rightarrow>
                        map_option Inr (reclaim (share_forms j (forms @ [form]) layout1))
                    | _ \<Rightarrow> Some (Inl TypeError))
               | _ \<Rightarrow> Some (Inr prev1))))"

subsection \<open>Cloning\<close>

text \<open>
  Both \<open>clone\<close> functions return what \<open>JSON.parse\<close> returns, a JSON value.
  \<open>toJSON\<close> is the value \<open>JSON.stringify\<close> writes for a layout: the own properties in
  the order the constructors assign them (\<open>id\<close> and \<open>type\<close> by the base class first).
  What it writes for a React node is the parameter \<open>enc\<close> (\<open>None\<close>: the property is
  left out, as for \<open>undefined\<close>).
\<close>

datatype json =
    JString string
  | JNumber int
  | JArray "json list"
  | JObject "(string \<times> json) list"

definition optional :: "string \<Rightarrow> json option \<Rightarrow> (string \<times> json) list" where
  "optional key v = (case v of Some j \<Rightarrow> [(key, j)] | None \<Rightarrow> [])"

definition formJSON :: "('c \<Rightarrow> json option) \<Rightarrow> 'c CDockForm \<Rightarrow> json" where
  "formJSON enc f =
     JObject ([(''id'', JString (form_id f)), (''title'', JString (title f))]
              @ optional ''children'' (Option.bind (children f) enc)
              @ optional ''icon'' (Option.bind (icon f) enc))"

fun directionJSON :: "DockLayoutDirection \<Rightarrow> json" where
  "directionJSON Horizontal = JString ''Horizontal''"
| "directionJSON Vertical = JString ''Vertical''"

fun toJSON :: "('c \<Rightarrow> json option) \<Rightarrow> 'c CDockLayoutItem \<Rightarrow> json" where
  "toJSON enc (CDockPanel i forms) =
     JObject [(''id'', JString i), (''type'', JString ''Panel''),
              (''forms'', JArray (map (formJSON enc) forms))]"
| "toJSON enc (CDockSplitter i p s d z) =
     JObject [(''id'', JString i), (''type'', JString ''Splitter''),
              (''primary'', toJSON enc p), (''secondary'', toJSON enc s),
              (''direction'', directionJSON d), (''size'', JNumber z)]"

text \<open>
  \<open>CDockManager.clone\<close>: \<open>console.log(JSON.stringify(layout)); return JSON.parse('{}')\<close>.
\<close>

definition CDockManager_clone :: "('c \<Rightarrow> json option) \<Rightarrow> 'c CDockLayoutItem \<Rightarrow> json" where
  "CDockManager_clone enc layout = JObject []"

text \<open>
  \<open>useDockManager.clone\<close>: \<open>JSON.parse(JSON.stringify(layout))\<close>; the parser reads back
  the value that was written.
\<close>

definition useDockManager_clone :: "('c \<Rightarrow> json option) \<Rightarrow> 'c CDockLayoutItem \<Rightarrow> json" where
  "useDockManager_clone enc layout = toJSON enc layout"

section \<open>Vocabulary of the properties\<close>

text \<open>The ids of all nodes of a tree, root first, primary subtree before secondary.\<close>

fun node_ids :: "'c CDockLayoutItem \<Rightarrow> string list" where
  "node_ids (CDockPanel i fs) = [i]"
| "node_ids (CDockSplitter i p s d z) = i # node_ids p @ node_ids s"

text \<open>
  The tree the reclamation pass leaves behind when it runs on a tree with unique node
  ids, by recursion on the tree: the children first, then the primary-empty test, then
  the secondary-empty test. It is compared with \<open>reclaim\<close> in \<open>reclaim_collapse\<close>.
\<close>

fun collapse :: "'c CDockLayoutItem \<Rightarrow> 'c CDockLayoutItem" where
  "collapse (CDockPanel i fs) = CDockPanel i fs"
| "collapse (CDockSplitter i p s d z) =
     (if is_empty_Panel (collapse p) then collapse s
      else if is_empty_Panel (collapse s) then collapse p
      else CDockSplitter i (collapse p) (collapse s) d z)"

text \<open>The panels of a tree with their form lists, and all forms, in traversal order.\<close>

fun panels :: "'c CDockLayoutItem \<Rightarrow> (string \<times> 'c CDockForm list) list" where
  "panels (CDockPanel i fs) = [(i, fs)]"
| "panels (CDockSplitter i p s d z) = panels p @ panels s"

definition all_forms :: "'c CDockLayoutItem \<Rightarrow> 'c CDockForm list" where
  "all_forms t = concat (map snd (panels t))"

text \<open>A panel (as an entry of \<open>panels\<close>) that holds at least one form.\<close>

definition occupied :: "string \<times> 'c CDockForm list \<Rightarrow> bool" where
  "occupied p = (snd p \<noteq> [])"

text \<open>No splitter of the tree has an empty panel as a child.\<close>

fun tidy :: "'c CDockLayoutItem \<Rightarrow> bool" where
  "tidy (CDockPanel i fs) = True"
| "tidy (CDockSplitter i p s d z) =
     (\<not> is_empty_Panel p \<and> \<not> is_empty_Panel s \<and> tidy p \<and> tidy s)"

text \<open>
  An id that \<open>createPanel\<close> or \<open>createSplitter\<close> has handed out while the counter went
  from 0 to \<open>counter\<close>.
\<close>

definition issued :: "nat \<Rightarrow> string \<Rightarrow> bool" where
  "issued counter i =
     (\<exists>n \<in> set [0..<counter]. i = fst (hash ''dmp'' n) \<or> i = fst (hash ''dms'' n))"

text \<open>
  Sequences of calls to the hook. A call is run on the layout and the counter and gives
  the next layout and counter; a \<open>stack\<close> that raises gives no next state. A
  \<open>stack\<close> call says which callback is called: the one of the current render, or an
  older one with the object graph its \<open>layout\<close> has at that moment (what has reached
  that graph depends on the calls and renders before, and is not computed here). Every
  render of the component evaluates \<open>useState(createPanel([]))\<close> and so moves the
  counter by one, so each call of a sequence comes with the number of renders since the
  call before it. \<open>run\<close> collects the state after each call.
\<close>

datatype 'c call =
    Split string string DockLayoutDirection
  | Stack "'c closure" string string

fun step :: "'c CDockLayoutItem \<times> nat \<Rightarrow> 'c call \<Rightarrow> ('c CDockLayoutItem \<times> nat) option" where
  "step (layout, counter) (Split formId destPanelId direction) =
     split layout formId destPanelId direction counter"
| "step (layout, counter) (Stack closure formId panelId) =
     (case stack closure layout formId panelId of
        Some (Inr layout') \<Rightarrow> Some (layout', counter)
      | _ \<Rightarrow> None)"

fun run ::
  "'c CDockLayoutItem \<times> nat \<Rightarrow> (nat \<times> 'c call) list
     \<Rightarrow> ('c CDockLayoutItem \<times> nat) list option" where
  "run st [] = Some []"
| "run st ((renders, c) # cs) =
     (case step (fst st, snd st + renders) c of
        None \<Rightarrow> None
      | Some st' \<Rightarrow> map_option ((#) st') (run st' cs))"

text \<open>
  The ids of a call resolve: the form id is found in some panel of the current layout,
  and the destination id is found there and is the id of a panel.
\<close>

definition resolves_to_panel :: "string \<Rightarrow> 'c CDockLayoutItem \<Rightarrow> bool" where
  "resolves_to_panel i layout =
     (case findLayoutItem i layout [] None None of
        Some (r, parent, grandparent) \<Rightarrow>
          (case deref layout r of Some (CDockPanel j fs) \<Rightarrow> True | _ \<Rightarrow> False)
      | None \<Rightarrow> False)"

fun resolves :: "'c CDockLayoutItem \<Rightarrow> 'c call \<Rightarrow> bool" where
  "resolves layout (Split formId destPanelId direction) =
     (findForm formId layout [] \<noteq> None \<and> resolves_to_panel destPanelId layout)"
| "resolves layout (Stack closure formId panelId) =
     (findForm formId layout [] \<noteq> None \<and> resolves_to_panel panelId layout)"

text \<open>
  The callback a \<open>stack\<close> call names exists: a callback of the current render
  (\<open>Current\<close>) needs a render of the state the call is applied to (\<open>rendered\<close>: the
  state is the one the sequence starts from, or a render lies between the call before
  and this one); the graph of an older callback is a tree of the store as well, its node
  ids are unique and were handed out by the counter.
\<close>

fun closure_ok :: "bool \<Rightarrow> nat \<Rightarrow> 'c call \<Rightarrow> bool" where
  "closure_ok rendered counter (Stack Current formId panelId) = rendered"
| "closure_ok rendered counter (Stack (Stale layout) formId panelId) =
     (distinct (node_ids layout) \<and> list_all (issued counter) (node_ids layout))"
| "closure_ok rendered counter (Split formId destPanelId direction) = True"

text \<open>
  \<open>all_resolve\<close> asks both of every call of a sequence, in the state the call is made
  in; the sequence starts from a rendered state.
\<close>

fun all_resolve_from ::
  "bool \<Rightarrow> 'c CDockLayoutItem \<times> nat \<Rightarrow> (nat \<times> 'c call) list \<Rightarrow> bool" where
  "all_resolve_from rendered st [] = True"
| "all_resolve_from rendered st ((renders, c) # cs) =
     (resolves (fst st) c \<and> closure_ok (rendered \<or> 0 < renders) (snd st + renders) c \<and>
      (case step (fst st, snd st + renders) c of
         Some st' \<Rightarrow> all_resolve_from False st' cs
       | None \<Rightarrow> True))"

definition all_resolve :: "'c CDockLayoutItem \<times> nat \<Rightarrow> (nat \<times> 'c call) list \<Rightarrow> bool" where
  "all_resolve st calls = all_resolve_from True st calls"

text \<open>No splitter has two children with the same id.\<close>

fun no_twin_children :: "'c CDockLayoutItem \<Rightarrow> bool" where
  "no_twin_children (CDockPanel i fs) = True"
| "no_twin_children (CDockSplitter i p s d z) =
     (item_id p \<noteq> item_id s \<and> no_twin_children p \<and> no_twin_children s)"

text \<open>No panel is empty, unless it is the root and the only node.\<close>

definition no_empty_panel_below_root :: "'c CDockLayoutItem \<Rightarrow> bool" where
  "no_empty_panel_below_root t = (is_Splitter t \<longrightarrow> list_all occupied (panels t))"

text \<open>Forms and a layout for the examples.\<close>

definition casenote :: "unit CDockForm" where
  "casenote = \<lparr>form_id = ''dmf-2'', title = ''Case notes'', children = None, icon = None\<rparr>"

definition chat :: "unit CDockForm" where
  "chat = \<lparr>form_id = ''dmf-3'', title = ''Chat'', children = None, icon = None\<rparr>"

definition video :: "unit CDockForm" where
  "video = \<lparr>form_id = ''dmf-6'', title = ''Video'', children = None, icon = None\<rparr>"

definition desk :: "unit CDockLayoutItem" where
  "desk = CDockSplitter ''dms-5'' (CDockPanel ''dmp-1'' [casenote])
            (CDockPanel ''dmp-4'' [chat, video]) Vertical 50"

section \<open>References, lookups and the reclamation pass on trees with unique ids\<close>

lemma item_id_in_node_ids [simp]: "item_id t \<in> set (node_ids t)"
  by (cases t) auto

lemma deref_append: "deref t (r @ q) = Option.bind (deref t r) (\<lambda>x. deref x q)"
  by (induction t r rule: deref.induct) auto

lemma deref_snoc_Splitter:
  "deref t r = Some (CDockSplitter i p s d z) \<Longrightarrow>
     deref t (r @ [Primary]) = Some p \<and> deref t (r @ [Secondary]) = Some s"
  by (simp add: deref_append)

lemma assign_same: "deref t r = Some x \<Longrightarrow> assign r x t = t"
  by (induction t r rule: deref.induct) auto

lemma deref_assign: "deref t r = Some x \<Longrightarrow> deref (assign r y t) r = Some y"
  by (induction t r rule: deref.induct) auto

lemma assign_append:
  "deref t r = Some x \<Longrightarrow> assign (r @ q) y t = assign r (assign q y x) t"
  by (induction t r rule: deref.induct) auto

lemma assign_assign: "deref t r = Some x \<Longrightarrow> assign r z (assign r y t) = assign r z t"
  by (induction t r rule: deref.induct) auto

lemma deref_node_ids: "deref t r = Some x \<Longrightarrow> set (node_ids x) \<subseteq> set (node_ids t)"
  by (induction t r rule: deref.induct) auto

lemma deref_distinct: "deref t r = Some x \<Longrightarrow> distinct (node_ids t) \<Longrightarrow> distinct (node_ids x)"
  by (induction t r rule: deref.induct) auto

lemma node_ids_assign:
  "deref t r = Some x \<Longrightarrow> distinct (node_ids t) \<Longrightarrow>
     set (node_ids (assign r y t)) = (set (node_ids t) - set (node_ids x)) \<union> set (node_ids y)"
proof (induction t r rule: deref.induct)
  case (1 t)
  then show ?case by auto
next
  case (2 i p s d z r)
  then have "set (node_ids x) \<subseteq> set (node_ids p)" by (auto dest: deref_node_ids)
  with 2 show ?case by auto
next
  case (3 i p s d z r)
  then have "set (node_ids x) \<subseteq> set (node_ids s)" by (auto dest: deref_node_ids)
  with 3 show ?case by auto
next
  case (4 i fs x r)
  then show ?case by simp
qed

lemma distinct_assign:
  "deref t r = Some x \<Longrightarrow> distinct (node_ids t) \<Longrightarrow> distinct (node_ids y) \<Longrightarrow>
     set (node_ids y) \<inter> (set (node_ids t) - set (node_ids x)) = {} \<Longrightarrow>
     distinct (node_ids (assign r y t))"
proof (induction t r rule: deref.induct)
  case (1 t)
  then show ?case by auto
next
  case (2 i p s d z r)
  then have sub: "set (node_ids x) \<subseteq> set (node_ids p)" by (auto dest: deref_node_ids)
  have ids: "set (node_ids (assign r y p)) = (set (node_ids p) - set (node_ids x)) \<union> set (node_ids y)"
    using 2 by (auto intro!: node_ids_assign)
  have "distinct (node_ids (assign r y p))" using 2 sub by (intro 2) auto
  with 2 sub ids show ?case by auto
next
  case (3 i p s d z r)
  then have sub: "set (node_ids x) \<subseteq> set (node_ids s)" by (auto dest: deref_node_ids)
  have ids: "set (node_ids (assign r y s)) = (set (node_ids s) - set (node_ids x)) \<union> set (node_ids y)"
    using 3 by (auto intro!: node_ids_assign)
  have "distinct (node_ids (assign r y s))" using 3 sub by (intro 3) auto
  with 3 sub ids show ?case by auto
next
  case (4 i fs x r)
  then show ?case by simp
qed

lemma findLayoutItem_absent:
  "i \<notin> set (node_ids t) \<Longrightarrow> findLayoutItem i t here par gp = None"
  by (induction t arbitrary: here par gp) auto

lemma findLayoutItem_unique:
  "deref t r = Some x \<Longrightarrow> distinct (node_ids t) \<Longrightarrow>
     \<exists>gp'. findLayoutItem (item_id x) t here par gp =
       Some (here @ r, (if r = [] then par else Some (here @ butlast r)), gp')"
proof (induction t r arbitrary: here par gp rule: deref.induct)
  case (1 t)
  then show ?case by (cases t) auto
next
  case (2 i p s d z r)
  then have "item_id x \<in> set (node_ids p)" using deref_node_ids[of p r x] by auto
  with 2 have ne: "item_id x \<noteq> i" by auto
  from 2 obtain gp' where "findLayoutItem (item_id x) p (here @ [Primary]) (Some here) par =
       Some ((here @ [Primary]) @ r, (if r = [] then Some here else Some ((here @ [Primary]) @ butlast r)), gp')"
    by fastforce
  with ne show ?case by (auto simp: butlast_append)
next
  case (3 i p s d z r)
  then have in_s: "item_id x \<in> set (node_ids s)" using deref_node_ids[of s r x] by auto
  with 3 have ne: "item_id x \<noteq> i" and notp: "item_id x \<notin> set (node_ids p)" by auto
  from 3 obtain gp' where "findLayoutItem (item_id x) s (here @ [Secondary]) (Some here) par =
       Some ((here @ [Secondary]) @ r, (if r = [] then Some here else Some ((here @ [Secondary]) @ butlast r)), gp')"
    by fastforce
  with ne notp show ?case by (auto simp: butlast_append findLayoutItem_absent)
next
  case (4 i fs x r)
  then show ?case by simp
qed


lemma collapse_ids: "set (node_ids (collapse t)) \<subseteq> set (node_ids t)"
  by (induction t) auto

lemma collapse_distinct: "distinct (node_ids t) \<Longrightarrow> distinct (node_ids (collapse t))"
proof (induction t)
  case (CDockPanel i fs)
  then show ?case by simp
next
  case (CDockSplitter i p s d z)
  moreover have "set (node_ids (collapse p)) \<subseteq> set (node_ids p)"
    "set (node_ids (collapse s)) \<subseteq> set (node_ids s)" by (rule collapse_ids)+
  ultimately show ?case by auto
qed

lemma collapse_not_Splitter: "\<not> is_Splitter t \<Longrightarrow> collapse t = t"
  by (cases t) auto

lemma replace_root:
  assumes "deref h [] = Some (CDockSplitter i p s d z)"
  shows "replace h [] [sl] = Some (h, [sl])"
  using assms by (cases sl) (auto simp: replace_def)

lemma replace_nested:
  assumes start: "deref h start = Some (CDockSplitter i p s d z)"
    and ne: "start \<noteq> []" and dist: "distinct (node_ids h)"
  shows "replace h start (start @ [Primary]) = Some (assign start p h, [])"
    and "replace h start (start @ [Secondary]) = Some (assign start s h, [])"
proof -
  from ne obtain q sl where q: "start = q @ [sl]" by (cases start rule: rev_cases) auto
  from start q obtain par where par: "deref h q = Some par" and child: "deref par [sl] = Some (CDockSplitter i p s d z)"
    by (auto simp: deref_append split: Option.bind_splits)
  from child obtain j pp ps dd zz where parS: "par = CDockSplitter j pp ps dd zz"
    by (cases par) auto
  from findLayoutItem_unique[OF start dist, of "[]" None None] ne q
  obtain gp' where find: "findLayoutItem i h [] None None = Some (start, Some q, gp')"
    by auto
  have dpar: "distinct (node_ids par)" using par dist by (rule deref_distinct)
  have kids: "deref h (start @ [Primary]) = Some p" "deref h (start @ [Secondary]) = Some s"
    using deref_snoc_Splitter[OF start] by auto
  show "replace h start (start @ [Primary]) = Some (assign start p h, [])"
  proof (cases sl)
    case Primary
    with child parS have "pp = CDockSplitter i p s d z" by simp
    with Primary show ?thesis using start kids find par parS q by (simp add: replace_def)
  next
    case Secondary
    with child parS have ps: "ps = CDockSplitter i p s d z" by simp
    with dpar parS have "item_id pp \<noteq> i"
      using item_id_in_node_ids[of pp] by auto
    with Secondary ps show ?thesis using start kids find par parS q by (simp add: replace_def)
  qed
  show "replace h start (start @ [Secondary]) = Some (assign start s h, [])"
  proof (cases sl)
    case Primary
    with child parS have "pp = CDockSplitter i p s d z" by simp
    with Primary show ?thesis using start kids find par parS q by (simp add: replace_def)
  next
    case Secondary
    with child parS have ps: "ps = CDockSplitter i p s d z" by simp
    with dpar parS have "item_id pp \<noteq> i"
      using item_id_in_node_ids[of pp] by auto
    with Secondary ps show ?thesis using start kids find par parS q by (simp add: replace_def)
  qed
qed

text \<open>One round of the pass at a splitter whose children are already collapsed.\<close>

lemma occupy_children:
  assumes start: "deref h start = Some (CDockSplitter i p s d z)"
    and dist: "distinct (node_ids h)"
    and IHp: "is_Splitter p \<Longrightarrow> occupyFreeSpace h (start @ [Primary]) =
                Some (assign (start @ [Primary]) (collapse p) h, [])"
    and IHs: "\<And>h'. is_Splitter s \<Longrightarrow> deref h' (start @ [Secondary]) = Some s \<Longrightarrow>
                distinct (node_ids h') \<Longrightarrow>
                occupyFreeSpace h' (start @ [Secondary]) =
                  Some (assign (start @ [Secondary]) (collapse s) h', [])"
  shows "occupyFreeSpace h start =
           (let h2 = assign start (CDockSplitter i (collapse p) (collapse s) d z) h in
            if is_empty_Panel (collapse p) then replace h2 start (start @ [Secondary])
            else if is_empty_Panel (collapse s) then replace h2 start (start @ [Primary])
            else Some (h2, []))"
proof -
  let ?t = "CDockSplitter i p s d z"
  let ?t1 = "CDockSplitter i (collapse p) s d z"
  let ?t2 = "CDockSplitter i (collapse p) (collapse s) d z"
  let ?h1 = "assign start ?t1 h"
  let ?h2 = "assign start ?t2 h"
  have kids: "deref h (start @ [Primary]) = Some p" "deref h (start @ [Secondary]) = Some s"
    using deref_snoc_Splitter[OF start] by auto
  have h1_eq: "assign (start @ [Primary]) (collapse p) h = ?h1"
    using start by (simp add: assign_append)
  have step1: "(if is_Splitter p
                 then Option.bind (occupyFreeSpace h (start @ [Primary])) (\<lambda>r. Some (fst r))
                 else Some h) = Some ?h1"
  proof (cases "is_Splitter p")
    case True
    then show ?thesis using IHp h1_eq by simp
  next
    case False
    then have "collapse p = p" by (rule collapse_not_Splitter)
    then have "?h1 = h" using start by (simp add: assign_same)
    with False show ?thesis by simp
  qed
  have d1: "deref ?h1 start = Some ?t1" using start by (rule deref_assign)
  have dt: "distinct (node_ids ?t)" using start dist by (rule deref_distinct)
  have cp: "set (node_ids (collapse p)) \<subseteq> set (node_ids p)"
    and cs: "set (node_ids (collapse s)) \<subseteq> set (node_ids s)" by (rule collapse_ids)+
  have dcp: "distinct (node_ids (collapse p))" and dcs: "distinct (node_ids (collapse s))"
    using dt by (auto intro: collapse_distinct)
  have dist1: "distinct (node_ids ?h1)"
  proof (rule distinct_assign[OF start dist])
    show "distinct (node_ids ?t1)" using dt dcp cp by auto
    show "set (node_ids ?t1) \<inter> (set (node_ids h) - set (node_ids ?t)) = {}"
      using cp by auto
  qed
  have kids1: "deref ?h1 (start @ [Secondary]) = Some s"
    using deref_snoc_Splitter[OF d1] by auto
  have h2_eq: "assign (start @ [Secondary]) (collapse s) ?h1 = ?h2"
    using d1 start by (simp add: assign_append assign_assign)
  have step2: "(if is_Splitter s
                 then Option.bind (occupyFreeSpace ?h1 (start @ [Secondary])) (\<lambda>r. Some (fst r))
                 else Some ?h1) = Some ?h2"
  proof (cases "is_Splitter s")
    case True
    then show ?thesis using IHs[OF True kids1 dist1] h2_eq by simp
  next
    case False
    then have "collapse s = s" by (rule collapse_not_Splitter)
    then have "?h2 = ?h1" by simp
    with False show ?thesis by simp
  qed
  have d2: "deref ?h2 start = Some ?t2" using start by (rule deref_assign)
  show ?thesis
    apply (subst occupyFreeSpace.simps)
    apply (simp only: start option.case CDockLayoutItem.case step1 Option.bind.simps)
    apply (simp only: d1 option.case CDockLayoutItem.case step2 Option.bind.simps)
    apply (simp only: d2 option.case CDockLayoutItem.case Let_def)
    done
qed


lemma occupy_nested:
  "deref h start = Some t \<Longrightarrow> start \<noteq> [] \<Longrightarrow> distinct (node_ids h) \<Longrightarrow>
     occupyFreeSpace h start = Some (assign start (collapse t) h, [])"
proof (induction t arbitrary: h start)
  case (CDockPanel i fs)
  then show ?case
    by (subst occupyFreeSpace.simps) (simp add: assign_same)
next
  case (CDockSplitter i p s d z)
  let ?t2 = "CDockSplitter i (collapse p) (collapse s) d z"
  let ?h2 = "assign start ?t2 h"
  note start = CDockSplitter.prems(1) and ne = CDockSplitter.prems(2) and dist = CDockSplitter.prems(3)
  have kids: "deref h (start @ [Primary]) = Some p"
    using deref_snoc_Splitter[OF start] by auto
  have IHp: "occupyFreeSpace h (start @ [Primary]) =
                Some (assign (start @ [Primary]) (collapse p) h, [])"
    using CDockSplitter.IH(1)[OF kids _ dist] by simp
  have IHs: "\<And>h'. deref h' (start @ [Secondary]) = Some s \<Longrightarrow> distinct (node_ids h') \<Longrightarrow>
                occupyFreeSpace h' (start @ [Secondary]) =
                  Some (assign (start @ [Secondary]) (collapse s) h', [])"
    using CDockSplitter.IH(2) by simp
  have eq: "occupyFreeSpace h start =
           (let h2 = ?h2 in
            if is_empty_Panel (collapse p) then replace h2 start (start @ [Secondary])
            else if is_empty_Panel (collapse s) then replace h2 start (start @ [Primary])
            else Some (h2, []))"
    using occupy_children[OF start dist IHp IHs] by simp
  have d2: "deref ?h2 start = Some ?t2" using start by (rule deref_assign)
  have dt: "distinct (node_ids (CDockSplitter i p s d z))" using start dist by (rule deref_distinct)
  have cp: "set (node_ids (collapse p)) \<subseteq> set (node_ids p)"
    and cs: "set (node_ids (collapse s)) \<subseteq> set (node_ids s)" by (rule collapse_ids)+
  have dcp: "distinct (node_ids (collapse p))" and dcs: "distinct (node_ids (collapse s))"
    using dt by (auto intro: collapse_distinct)
  have dist2: "distinct (node_ids ?h2)"
  proof (rule distinct_assign[OF start dist])
    show "distinct (node_ids ?t2)" using dt dcp dcs cp cs by auto
    show "set (node_ids ?t2) \<inter> (set (node_ids h) - set (node_ids (CDockSplitter i p s d z))) = {}"
      using cp cs by auto
  qed
  have r1: "replace ?h2 start (start @ [Primary]) = Some (assign start (collapse p) h, [])"
    and r2: "replace ?h2 start (start @ [Secondary]) = Some (assign start (collapse s) h, [])"
    using replace_nested[OF d2 ne dist2] start by (simp_all add: assign_assign)
  show ?case
    unfolding eq by (simp add: r1 r2 Let_def)
qed

lemma reclaim_collapse:
  assumes dist: "distinct (node_ids h)"
  shows "reclaim h = Some (collapse h)"
proof (cases h)
  case (CDockPanel i fs)
  then show ?thesis
    unfolding reclaim_def by (subst occupyFreeSpace.simps) simp
next
  case (CDockSplitter i p s d z)
  let ?t2 = "CDockSplitter i (collapse p) (collapse s) d z"
  have start: "deref h [] = Some (CDockSplitter i p s d z)" using CDockSplitter by simp
  have dp: "distinct (node_ids h)" by (rule dist)
  have IHp: "occupyFreeSpace h ([] @ [Primary]) =
                Some (assign ([] @ [Primary]) (collapse p) h, [])"
    using CDockSplitter dist by (intro occupy_nested) auto
  have IHs: "\<And>h'. deref h' ([] @ [Secondary]) = Some s \<Longrightarrow> distinct (node_ids h') \<Longrightarrow>
                occupyFreeSpace h' ([] @ [Secondary]) =
                  Some (assign ([] @ [Secondary]) (collapse s) h', [])"
    by (intro occupy_nested) auto
  have eq: "occupyFreeSpace h [] =
           (if is_empty_Panel (collapse p) then replace ?t2 [] [Secondary]
            else if is_empty_Panel (collapse s) then replace ?t2 [] [Primary]
            else Some (?t2, []))"
    using occupy_children[OF start dist IHp IHs] by simp
  have r: "\<And>sl. replace ?t2 [] [sl] = Some (?t2, [sl])"
    by (rule replace_root) simp
  show ?thesis
    unfolding reclaim_def eq using CDockSplitter by (simp add: r)
qed

lemma node_ids_assign_Panel:
  "deref t r = Some (CDockPanel i old) \<Longrightarrow> node_ids (assign r (CDockPanel i new) t) = node_ids t"
  by (induction t r rule: deref.induct) auto

lemma node_ids_set_forms [simp]: "node_ids (set_forms r fs t) = node_ids t"
  by (auto simp: set_forms_def node_ids_assign_Panel split: option.splits CDockLayoutItem.splits)

lemma findLayoutItem_assign_Panel:
  "deref t r = Some (CDockPanel i old) \<Longrightarrow>
     findLayoutItem k (assign r (CDockPanel i new) t) here par gp = findLayoutItem k t here par gp"
  by (induction t r arbitrary: here par gp rule: deref.induct) (auto split: option.splits)

lemma findLayoutItem_set_forms [simp]:
  "findLayoutItem k (set_forms r fs t) here par gp = findLayoutItem k t here par gp"
  by (auto simp: set_forms_def findLayoutItem_assign_Panel split: option.splits CDockLayoutItem.splits)


lemma findForm_deref:
  "findForm formId t here = Some (form, r) \<Longrightarrow>
     \<exists>q i fs. r = here @ q \<and> deref t q = Some (CDockPanel i fs) \<and>
       find (\<lambda>f. form_id f = formId) fs = Some form"
proof (induction t arbitrary: here)
  case (CDockPanel i fs)
  then show ?case by (auto split: option.splits)
next
  case (CDockSplitter i p s d z)
  show ?case
  proof (cases "findForm formId p (here @ [Primary])")
    case None
    with CDockSplitter.prems have "findForm formId s (here @ [Secondary]) = Some (form, r)" by simp
    from CDockSplitter.IH(2)[OF this] obtain q j fs where
      "r = (here @ [Secondary]) @ q" "deref s q = Some (CDockPanel j fs)"
      "find (\<lambda>f. form_id f = formId) fs = Some form" by blast
    then show ?thesis by (intro exI[of _ "Secondary # q"]) auto
  next
    case (Some a)
    with CDockSplitter.prems have "findForm formId p (here @ [Primary]) = Some (form, r)" by simp
    from CDockSplitter.IH(1)[OF this] obtain q j fs where
      "r = (here @ [Primary]) @ q" "deref p q = Some (CDockPanel j fs)"
      "find (\<lambda>f. form_id f = formId) fs = Some form" by blast
    then show ?thesis by (intro exI[of _ "Primary # q"]) auto
  qed
qed

lemma findForm_root:
  "findForm formId t [] = Some (form, r) \<Longrightarrow>
     \<exists>i fs. deref t r = Some (CDockPanel i fs) \<and> find (\<lambda>f. form_id f = formId) fs = Some form"
  using findForm_deref[of formId t "[]" form r] by auto

lemma extractForm_None: "findForm formId root [] = None \<Longrightarrow> extractForm root formId = (root, None)"
  by (simp add: extractForm_def)

lemma extractForm_Some:
  assumes "findForm formId root [] = Some (form, source)"
  shows "\<exists>i fs. deref root source = Some (CDockPanel i fs) \<and>
           find (\<lambda>f. form_id f = formId) fs = Some form \<and>
           extractForm root formId =
             (set_forms source (splice1 (findIndex (\<lambda>f. form_id f = formId) fs) fs) root,
              Some (form, source))"
proof -
  from findForm_root[OF assms] obtain i fs where
    d: "deref root source = Some (CDockPanel i fs)" and f: "find (\<lambda>f. form_id f = formId) fs = Some form"
    by blast
  then show ?thesis using assms by (auto simp: extractForm_def forms_at_def)
qed

lemma stack_dockForm: "stack Current layout formId panelId = dockForm layout formId panelId"
proof (cases "findForm formId layout []")
  case None
  then show ?thesis by (simp add: stack_def dockForm_def extractForm_def)
next
  case (Some a)
  obtain form source where a: "a = (form, source)" by (cases a)
  from extractForm_Some[OF Some[unfolded a]] obtain i fs where
    d: "deref layout source = Some (CDockPanel i fs)" and
    e: "extractForm layout formId =
             (set_forms source (splice1 (findIndex (\<lambda>f. form_id f = formId) fs) fs) layout,
              Some (form, source))" by blast
  show ?thesis
    using Some a d e by (simp add: stack_def dockForm_def forms_at_def Let_def split: option.splits)
qed

lemma split_single_form_guard:
  assumes "findForm formId layout [] = Some (form, panel)"
    and "deref layout panel = Some (CDockPanel destPanelId [form])"
  shows "split layout formId destPanelId direction counter = Some (layout, counter)"
  using assms by (simp add: split_def)

subsection \<open>What the pass keeps\<close>

lemma tidy_collapse: "tidy (collapse t)"
  by (induction t) auto

lemma collapse_tidy: "tidy t \<Longrightarrow> collapse t = t"
  by (induction t) auto

lemma collapse_idem: "collapse (collapse t) = collapse t"
  by (simp add: collapse_tidy tidy_collapse)

lemma is_empty_Panel_panels: "is_empty_Panel t \<Longrightarrow> filter occupied (panels t) = []"
  by (cases t) (auto simp: occupied_def)

lemma panels_collapse: "filter occupied (panels (collapse t)) = filter occupied (panels t)"
proof (induction t)
  case (CDockPanel i fs)
  then show ?case by simp
next
  case (CDockSplitter i p s d z)
  then show ?case
    using is_empty_Panel_panels[of "collapse p"] is_empty_Panel_panels[of "collapse s"]
    by auto
qed

lemma panels_collapse_subset: "set (panels (collapse t)) \<subseteq> set (panels t)"
  by (induction t) auto

lemma concat_occupied: "concat (map snd (filter occupied ps)) = concat (map snd ps)"
  by (induction ps) (auto simp: occupied_def)

lemma all_forms_collapse: "all_forms (collapse t) = all_forms t"
  unfolding all_forms_def
  by (metis concat_occupied panels_collapse)

subsection \<open>Panels by id\<close>

lemma in_set_nonempty: "x \<in> set xs \<Longrightarrow> xs \<noteq> []"
  by auto

lemma findIndex_find:
  "find P xs = Some x \<Longrightarrow>
     \<exists>k. findIndex P xs = int k \<and> k < length xs \<and> take k xs @ drop (Suc k) xs = remove1 x xs"
proof (induction xs)
  case Nil
  then show ?case by simp
next
  case (Cons y ys)
  show ?case
  proof (cases "P y")
    case True
    with Cons.prems have "x = y" by simp
    with True show ?thesis by (intro exI[of _ 0]) simp
  next
    case False
    with Cons.prems have f: "find P ys = Some x" by simp
    then have "P x" by (auto simp: find_Some_iff)
    with False have ne: "x \<noteq> y" by auto
    from Cons.IH[OF f] obtain k where
      k: "findIndex P ys = int k" "k < length ys" "take k ys @ drop (Suc k) ys = remove1 x ys"
      by blast
    with False ne show ?thesis by (intro exI[of _ "Suc k"]) (simp add: Let_def)
  qed
qed

lemma splice1_findIndex:
  "find P xs = Some x \<Longrightarrow> splice1 (findIndex P xs) xs = remove1 x xs"
proof -
  assume "find P xs = Some x"
  from findIndex_find[OF this] obtain k where
    k: "findIndex P xs = int k" "k < length xs" "take k xs @ drop (Suc k) xs = remove1 x xs"
    by blast
  then show ?thesis by (simp add: splice1_def Let_def min_def)
qed

lemma panels_ids: "fst ` set (panels t) \<subseteq> set (node_ids t)"
  by (induction t) auto

lemma distinct_panels: "distinct (node_ids t) \<Longrightarrow> distinct (map fst (panels t))"
proof (induction t)
  case (CDockPanel i fs)
  then show ?case by simp
next
  case (CDockSplitter i p s d z)
  then show ?case using panels_ids[of p] panels_ids[of s] by auto
qed

lemma deref_panels: "deref t r = Some (CDockPanel i fs) \<Longrightarrow> (i, fs) \<in> set (panels t)"
  by (induction t r rule: deref.induct) auto

lemma panel_lookup:
  "distinct (node_ids t) \<Longrightarrow> deref t r = Some (CDockPanel i fs) \<Longrightarrow>
     map_of (panels t) i = Some fs"
  by (simp add: deref_panels distinct_panels)

lemma deref_assign_Panel_other:
  "deref t r = Some (CDockPanel i old) \<Longrightarrow> deref t r' = Some (CDockPanel j fs) \<Longrightarrow>
     deref (assign r (CDockPanel i new) t) r' =
       Some (if r' = r then CDockPanel i new else CDockPanel j fs)"
proof (induction t r arbitrary: r' rule: deref.induct)
  case (1 t)
  then show ?case by (cases r') auto
next
  case (2 i' p s d z r)
  show ?case
  proof (cases r')
    case Nil
    with 2 show ?thesis by simp
  next
    case (Cons a q)
    with 2 show ?thesis by (cases a) auto
  qed
next
  case (3 i' p s d z r)
  show ?case
  proof (cases r')
    case Nil
    with 3 show ?thesis by simp
  next
    case (Cons a q)
    with 3 show ?thesis by (cases a) auto
  qed
next
  case (4 i fs x r)
  then show ?case by simp
qed

lemma deref_unique_id:
  assumes "distinct (node_ids t)" "deref t r = Some x" "deref t r' = Some y"
    "item_id x = item_id y"
  shows "r = r'"
  using findLayoutItem_unique[OF assms(2) assms(1), of "[]" None None]
        findLayoutItem_unique[OF assms(3) assms(1), of "[]" None None] assms(4)
  by auto

lemma map_of_filter_occupied:
  "distinct (map fst ps) \<Longrightarrow>
     map_of (filter occupied ps) k =
       (case map_of ps k of None \<Rightarrow> None | Some fs \<Rightarrow> if fs = [] then None else Some fs)"
proof (induction ps)
  case Nil
  then show ?case by simp
next
  case (Cons a ps)
  obtain i fs where a: "a = (i, fs)" by (cases a)
  have "k = i \<Longrightarrow> map_of ps k = None" using Cons.prems a by (auto simp: map_of_eq_None_iff)
  then have "k = i \<Longrightarrow> map_of (filter occupied ps) k = None"
    using Cons by simp
  with Cons a show ?case by (auto simp: occupied_def map_of_eq_None_iff)
qed

lemma tidy_panels: "tidy t \<Longrightarrow> \<not> is_empty_Panel t \<Longrightarrow> list_all occupied (panels t)"
  by (induction t) (auto simp: occupied_def)

lemma panels_collapse_occupied:
  assumes "filter occupied (panels t) \<noteq> []"
  shows "panels (collapse t) = filter occupied (panels t)"
proof -
  have "\<not> is_empty_Panel (collapse t)"
  proof
    assume "is_empty_Panel (collapse t)"
    then have "filter occupied (panels (collapse t)) = []" by (rule is_empty_Panel_panels)
    with assms show False by (simp only: panels_collapse)
  qed
  then have "list_all occupied (panels (collapse t))" using tidy_collapse by (rule tidy_panels[rotated])
  then have "filter occupied (panels (collapse t)) = panels (collapse t)"
    by (simp add: list_all_iff)
  then show ?thesis by (simp add: panels_collapse)
qed

subsection \<open>Fresh ids and the invariants of the store\<close>

lemma decimal_nonempty: "decimal n \<noteq> []"
  by (subst decimal.simps) simp

lemma digit_char_inj: "a < 10 \<Longrightarrow> b < 10 \<Longrightarrow> digit_char a = digit_char b \<Longrightarrow> a = b"
  by (simp add: digit_char_def)

lemma decimal_inj: "decimal n = decimal m \<Longrightarrow> n = m"
proof (induction n arbitrary: m rule: decimal.induct)
  case (1 n)
  show ?case
  proof (cases "n < 10")
    case True
    show ?thesis
    proof (cases "m < 10")
      case mlt: True
      from 1(2) True mlt have "digit_char n = digit_char m"
        by (simp add: decimal.simps[of n] decimal.simps[of m])
      with True mlt show ?thesis by (rule digit_char_inj)
    next
      case False
      with 1(2) True have "[digit_char n] = decimal (m div 10) @ [digit_char (m mod 10)]"
        by (simp add: decimal.simps[of n] decimal.simps[of m])
      then show ?thesis using decimal_nonempty[of "m div 10"] by simp
    qed
  next
    case False
    show ?thesis
    proof (cases "m < 10")
      case True
      with 1(2) False have "decimal (n div 10) @ [digit_char (n mod 10)] = [digit_char m]"
        by (simp add: decimal.simps[of n] decimal.simps[of m])
      then show ?thesis using decimal_nonempty[of "n div 10"] by simp
    next
      case mge: False
      with 1(2) False have eq: "decimal (n div 10) = decimal (m div 10)"
        and dg: "digit_char (n mod 10) = digit_char (m mod 10)"
        by (simp_all add: decimal.simps[of n] decimal.simps[of m])
      from 1(1)[OF False eq] have "n div 10 = m div 10" .
      moreover from dg have "n mod 10 = m mod 10" by (intro digit_char_inj) auto
      ultimately show ?thesis by (metis div_mult_mod_eq)
    qed
  qed
qed

lemma hash_fst: "fst (hash prefix n) = prefix @ ''-'' @ decimal (Suc n)"
  by (simp add: hash_def)

lemma hash_inj: "fst (hash ''dmp'' n) = fst (hash ''dmp'' m) \<Longrightarrow> n = m"
  "fst (hash ''dms'' n) = fst (hash ''dms'' m) \<Longrightarrow> n = m"
  "fst (hash ''dmp'' n) \<noteq> fst (hash ''dms'' m)"
  by (auto simp: hash_fst dest: decimal_inj)

lemma issued_mono: "issued c i \<Longrightarrow> c \<le> c' \<Longrightarrow> issued c' i"
  by (auto simp: issued_def)

lemma issued_fresh:
  assumes "issued c i" "c \<le> n"
  shows "i \<noteq> fst (hash ''dmp'' n)" "i \<noteq> fst (hash ''dms'' n)"
proof -
  from assms(1) obtain k where k: "k < c"
    "i = fst (hash ''dmp'' k) \<or> i = fst (hash ''dms'' k)" by (auto simp: issued_def)
  with assms(2) have "k \<noteq> n" by simp
  then have "decimal (Suc k) \<noteq> decimal (Suc n)" by (auto dest: decimal_inj)
  with k(2) show "i \<noteq> fst (hash ''dmp'' n)" "i \<noteq> fst (hash ''dms'' n)"
    by (auto simp: hash_fst)
qed

lemma issued_hash: "n < c \<Longrightarrow> issued c (fst (hash ''dmp'' n))" "n < c \<Longrightarrow> issued c (fst (hash ''dms'' n))"
  by (auto simp: issued_def)

lemma parent_slot:
  assumes start: "deref h start = Some x" and ne: "start \<noteq> []" and dist: "distinct (node_ids h)"
  shows "\<exists>j pp ps dd zz. deref h (butlast start) = Some (CDockSplitter j pp ps dd zz) \<and>
           ((item_id pp = item_id x \<and> butlast start @ [Primary] = start) \<or>
            (item_id pp \<noteq> item_id x \<and> item_id ps = item_id x \<and> butlast start @ [Secondary] = start))"
proof -
  from ne obtain q sl where q: "start = q @ [sl]" by (cases start rule: rev_cases) auto
  from start q obtain par where par: "deref h q = Some par" and child: "deref par [sl] = Some x"
    by (auto simp: deref_append split: Option.bind_splits)
  from child obtain j pp ps dd zz where parS: "par = CDockSplitter j pp ps dd zz"
    by (cases par) auto
  have dpar: "distinct (node_ids par)" using par dist by (rule deref_distinct)
  show ?thesis
  proof (cases sl)
    case Primary
    with child parS par q show ?thesis by auto
  next
    case Secondary
    with child parS have psx: "ps = x" by simp
    have "set (node_ids pp) \<inter> set (node_ids ps) = {}" using dpar parS by auto
    then have "item_id pp \<noteq> item_id ps"
      using item_id_in_node_ids[of pp] item_id_in_node_ids[of ps] by (metis disjoint_iff)
    with psx show ?thesis using Secondary par parS q by auto
  qed
qed

lemma findLayoutItem_deref:
  "findLayoutItem k t here par gp = Some (r, par', gp') \<Longrightarrow>
     \<exists>q x. r = here @ q \<and> deref t q = Some x \<and> item_id x = k"
proof (induction t arbitrary: here par gp)
  case (CDockPanel i fs)
  then show ?case by (auto split: if_splits)
next
  case (CDockSplitter i p s d z)
  show ?case
  proof (cases "k = i")
    case True
    with CDockSplitter.prems show ?thesis by (intro exI[of _ "[]"]) auto
  next
    case False
    show ?thesis
    proof (cases "findLayoutItem k p (here @ [Primary]) (Some here) par")
      case None
      with False CDockSplitter.prems
      have "findLayoutItem k s (here @ [Secondary]) (Some here) par = Some (r, par', gp')" by simp
      from CDockSplitter.IH(2)[OF this] obtain q x where
        "r = (here @ [Secondary]) @ q" "deref s q = Some x" "item_id x = k" by blast
      then show ?thesis by (intro exI[of _ "Secondary # q"]) auto
    next
      case (Some a)
      with False CDockSplitter.prems
      have "findLayoutItem k p (here @ [Primary]) (Some here) par = Some (r, par', gp')" by simp
      from CDockSplitter.IH(1)[OF this] obtain q x where
        "r = (here @ [Primary]) @ q" "deref p q = Some x" "item_id x = k" by blast
      then show ?thesis by (intro exI[of _ "Primary # q"]) auto
    qed
  qed
qed

lemma findLayoutItem_root:
  assumes "findLayoutItem k t [] None None = Some (r, par, gp)" "distinct (node_ids t)"
  shows "\<exists>x. deref t r = Some x \<and> item_id x = k \<and> par = (if r = [] then None else Some (butlast r))"
proof -
  from findLayoutItem_deref[OF assms(1)] obtain x where x: "deref t r = Some x" "item_id x = k"
    by auto
  from findLayoutItem_unique[OF x(1) assms(2), of "[]" None None] x(2) assms(1)
  show ?thesis using x by auto
qed


lemma insertSplitter_found:
  assumes dist: "distinct (node_ids root)"
    and find: "findLayoutItem dest root [] None None = Some (r, par, gp)"
    and fresh: "fst (hash ''dmp'' c) \<notin> set (node_ids root)"
               "fst (hash ''dms'' (Suc c)) \<notin> set (node_ids root)"
  shows "\<exists>x. deref root r = Some x \<and>
           distinct (node_ids (assign r (CDockSplitter (fst (hash ''dms'' (Suc c))) x
                       (CDockPanel (fst (hash ''dmp'' c)) [form]) dir 50) root)) \<and>
           insertSplitter root form dest dir c =
             Some (collapse (assign r (CDockSplitter (fst (hash ''dms'' (Suc c))) x
                       (CDockPanel (fst (hash ''dmp'' c)) [form]) dir 50) root), Suc (Suc c))"
proof -
  let ?id1 = "fst (hash ''dmp'' c)" and ?id2 = "fst (hash ''dms'' (Suc c))"
  from findLayoutItem_root[OF find dist] obtain x where
    x: "deref root r = Some x" and par: "par = (if r = [] then None else Some (butlast r))"
    by blast
  let ?new = "CDockSplitter ?id2 x (CDockPanel ?id1 [form]) dir 50"
  let ?t2 = "assign r ?new root"
  have sub: "set (node_ids x) \<subseteq> set (node_ids root)" using x by (rule deref_node_ids)
  have dx: "distinct (node_ids x)" using x dist by (rule deref_distinct)
  have ne12: "?id1 \<noteq> ?id2" by (rule hash_inj(3))
  have dnew: "distinct (node_ids ?new)" using dx sub fresh ne12 by auto
  have dist2: "distinct (node_ids ?t2)"
    using x dist dnew by (rule distinct_assign) (use fresh in auto)
  have mk: "createPanel [form] c = (CDockPanel ?id1 [form], Suc c)"
    "createSplitter x (CDockPanel ?id1 [form]) dir 50 (Suc c) = (?new, Suc (Suc c))"
    by (simp_all add: createPanel_def createSplitter_def hash_def)
  have "insertSplitter root form dest dir c = Some (collapse ?t2, Suc (Suc c))"
  proof (cases "r = []")
    case True
    with x par find mk dist2 show ?thesis
      by (simp add: insertSplitter_def reclaim_collapse)
  next
    case False
    from parent_slot[OF x False dist] obtain j pp ps dd zz where
      p: "deref root (butlast r) = Some (CDockSplitter j pp ps dd zz)" and
      sl: "(item_id pp = item_id x \<and> butlast r @ [Primary] = r) \<or>
           (item_id pp \<noteq> item_id x \<and> item_id ps = item_id x \<and> butlast r @ [Secondary] = r)"
      by blast
    from sl show ?thesis
    proof
      assume "item_id pp = item_id x \<and> butlast r @ [Primary] = r"
      with False x par find mk dist2 p show ?thesis
        by (simp add: insertSplitter_def reclaim_collapse)
    next
      assume "item_id pp \<noteq> item_id x \<and> item_id ps = item_id x \<and> butlast r @ [Secondary] = r"
      with False x par find mk dist2 p show ?thesis
        by (simp add: insertSplitter_def reclaim_collapse)
    qed
  qed
  with x dist2 show ?thesis by blast
qed

lemma insertSplitter_ok:
  assumes dist: "distinct (node_ids root)"
    and iss: "\<forall>i \<in> set (node_ids root). issued c i"
  shows "\<exists>t' c'. insertSplitter root form dest dir c = Some (t', c') \<and>
           distinct (node_ids t') \<and> (\<forall>i \<in> set (node_ids t'). issued c' i) \<and> tidy t'"
proof (cases "findLayoutItem dest root [] None None")
  case None
  then have "insertSplitter root form dest dir c = Some (collapse root, c)"
    using dist by (simp add: insertSplitter_def reclaim_collapse)
  moreover have "\<forall>i \<in> set (node_ids (collapse root)). issued c i"
    using iss collapse_ids[of root] by auto
  ultimately show ?thesis using dist by (auto simp: collapse_distinct tidy_collapse)
next
  case (Some a)
  obtain r par gp where a: "a = (r, par, gp)" by (cases a)
  let ?id1 = "fst (hash ''dmp'' c)" and ?id2 = "fst (hash ''dms'' (Suc c))"
  have fresh: "?id1 \<notin> set (node_ids root)" "?id2 \<notin> set (node_ids root)"
    using iss issued_fresh(1)[of c _ c] issued_fresh(2)[of c _ "Suc c"] by auto
  from insertSplitter_found[OF dist Some[unfolded a] fresh, of form dir] obtain x where
    x: "deref root r = Some x" and
    d2: "distinct (node_ids (assign r (CDockSplitter ?id2 x (CDockPanel ?id1 [form]) dir 50) root))" and
    ins: "insertSplitter root form dest dir c =
            Some (collapse (assign r (CDockSplitter ?id2 x (CDockPanel ?id1 [form]) dir 50) root),
                  Suc (Suc c))"
    by blast
  let ?t2 = "assign r (CDockSplitter ?id2 x (CDockPanel ?id1 [form]) dir 50) root"
  have ids2: "set (node_ids ?t2) \<subseteq> set (node_ids root) \<union> {?id1, ?id2}"
    using node_ids_assign[OF x dist, of "CDockSplitter ?id2 x (CDockPanel ?id1 [form]) dir 50"]
      deref_node_ids[OF x] by auto
  have "\<forall>i \<in> set (node_ids ?t2). issued (Suc (Suc c)) i"
  proof
    fix i assume "i \<in> set (node_ids ?t2)"
    with ids2 have "i \<in> set (node_ids root) \<or> i = ?id1 \<or> i = ?id2" by auto
    then show "issued (Suc (Suc c)) i"
      using iss issued_mono[of c i "Suc (Suc c)"] issued_hash(1)[of c "Suc (Suc c)"]
        issued_hash(2)[of "Suc c" "Suc (Suc c)"] by auto
  qed
  then have "\<forall>i \<in> set (node_ids (collapse ?t2)). issued (Suc (Suc c)) i"
    using collapse_ids[of ?t2] by auto
  with ins d2 show ?thesis by (auto simp: collapse_distinct tidy_collapse)
qed

lemma split_ok:
  assumes dist: "distinct (node_ids layout)"
    and iss: "\<forall>i \<in> set (node_ids layout). issued c i"
    and tidy: "tidy layout"
  shows "\<exists>t' c'. split layout formId dest dir c = Some (t', c') \<and>
           distinct (node_ids t') \<and> (\<forall>i \<in> set (node_ids t'). issued c' i) \<and> tidy t'"
proof (cases "findForm formId layout []")
  case None
  then show ?thesis using assms by (simp add: split_def)
next
  case (Some a)
  obtain form panel where a: "a = (form, panel)" by (cases a)
  from findForm_root[OF Some[unfolded a]] obtain i fs where
    d: "deref layout panel = Some (CDockPanel i fs)" by blast
  show ?thesis
  proof (cases "i = dest \<and> length fs \<le> 1")
    case True
    then show ?thesis using Some a d assms by (simp add: split_def)
  next
    case False
    let ?root1 = "set_forms panel (splice1 (findIndex (\<lambda>f. form_id f = formId) fs) fs) layout"
    have "split layout formId dest dir c = insertSplitter ?root1 form dest dir c"
      using False Some a d by (auto simp: split_def Let_def)
    moreover have "distinct (node_ids ?root1)" "\<forall>i \<in> set (node_ids ?root1). issued c i"
      using dist iss by simp_all
    ultimately show ?thesis using insertSplitter_ok[of ?root1 c form dest dir] by simp
  qed
qed

lemma node_ids_share_forms [simp]: "node_ids (share_forms i fs t) = node_ids t"
  by (induction t) auto

lemma findLayoutItem_share_forms [simp]:
  "findLayoutItem k (share_forms i fs t) here par gp = findLayoutItem k t here par gp"
  by (induction t arbitrary: here par gp) (auto split: option.splits)

lemma deref_share_forms_Panel:
  "deref t r = Some (CDockPanel j fs0) \<Longrightarrow>
     \<exists>fs1. deref (share_forms i fs t) r = Some (CDockPanel j fs1)"
  by (induction t r rule: deref.induct) auto

lemma stack_Current_ok:
  assumes dist: "distinct (node_ids layout)"
    and iss: "\<forall>i \<in> set (node_ids layout). issued c i"
    and res: "resolves layout (Stack closure formId panelId)"
  shows "\<exists>t'. stack Current layout formId panelId = Some (Inr t') \<and>
           distinct (node_ids t') \<and> (\<forall>i \<in> set (node_ids t'). issued c i) \<and> tidy t'"
proof -
  from res obtain form source where f: "findForm formId layout [] = Some (form, source)"
    by auto
  from res obtain r par gp j fs0 where
    find: "findLayoutItem panelId layout [] None None = Some (r, par, gp)" and
    dr: "deref layout r = Some (CDockPanel j fs0)"
    by (auto simp: resolves_to_panel_def split: option.splits CDockLayoutItem.splits)
  from extractForm_Some[OF f] obtain i fs where
    d: "deref layout source = Some (CDockPanel i fs)" and
    ex: "extractForm layout formId =
           (set_forms source (splice1 (findIndex (\<lambda>f. form_id f = formId) fs) fs) layout,
            Some (form, source))" by blast
  let ?rest = "splice1 (findIndex (\<lambda>f. form_id f = formId) fs) fs"
  let ?root1 = "set_forms source ?rest layout"
  have root1: "?root1 = assign source (CDockPanel i ?rest) layout"
    using d by (simp add: set_forms_def)
  from deref_assign_Panel_other[OF d dr, of ?rest]
  obtain fs1 where d1: "deref ?root1 r = Some (CDockPanel (if r = source then i else j) fs1)"
    unfolding root1 by (cases "r = source") auto
  let ?root2 = "set_forms r (fs1 @ [form]) ?root1"
  have dist2: "distinct (node_ids ?root2)" using dist by simp
  have "dockForm layout formId panelId = Some (Inr (collapse ?root2))"
    using ex find d1 dist2 by (simp add: dockForm_def forms_at_def reclaim_collapse)
  moreover have "\<forall>i \<in> set (node_ids (collapse ?root2)). issued c i"
    using iss collapse_ids[of ?root2] by auto
  ultimately show ?thesis
    using dist2 by (auto simp: stack_dockForm collapse_distinct tidy_collapse)
qed

lemma stack_Stale_ok:
  assumes dist: "distinct (node_ids prev)"
    and iss: "\<forall>i \<in> set (node_ids prev). issued c i"
    and tidy: "tidy prev"
    and res: "resolves prev (Stack (Stale layout) formId panelId)"
    and ldist: "distinct (node_ids layout)"
    and liss: "\<forall>i \<in> set (node_ids layout). issued c i"
  shows "\<exists>t'. stack (Stale layout) prev formId panelId = Some (Inr t') \<and>
           distinct (node_ids t') \<and> (\<forall>i \<in> set (node_ids t'). issued c i) \<and> tidy t'"
proof (cases "findForm formId layout []")
  case None
  then have "stack (Stale layout) prev formId panelId = Some (Inr prev)"
    by (simp add: stack_def split: option.splits)
  with dist iss tidy show ?thesis by simp
next
  case (Some a)
  obtain form source where a: "a = (form, source)" by (cases a)
  from findForm_root[OF Some[unfolded a]] obtain i fs where
    d: "deref layout source = Some (CDockPanel i fs)" by blast
  from res obtain r par gp j fs0 where
    find: "findLayoutItem panelId prev [] None None = Some (r, par, gp)" and
    dr: "deref prev r = Some (CDockPanel j fs0)"
    by (auto simp: resolves_to_panel_def split: option.splits CDockLayoutItem.splits)
  let ?rest = "splice1 (findIndex (\<lambda>f. form_id f = formId) fs) fs"
  let ?layout1 = "set_forms source ?rest layout"
  let ?prev1 = "share_forms i ?rest prev"
  from deref_share_forms_Panel[OF dr, of i ?rest] obtain fs1 where
    d1: "deref ?prev1 r = Some (CDockPanel j fs1)" by blast
  let ?layout2 = "share_forms j (fs1 @ [form]) ?layout1"
  have dist2: "distinct (node_ids ?layout2)" using ldist by simp
  have "stack (Stale layout) prev formId panelId = Some (Inr (collapse ?layout2))"
    using Some a d find d1 dist2 by (simp add: stack_def Let_def reclaim_collapse)
  moreover have "\<forall>i \<in> set (node_ids (collapse ?layout2)). issued c i"
    using liss collapse_ids[of ?layout2] by auto
  ultimately show ?thesis
    using dist2 by (auto simp: collapse_distinct tidy_collapse)
qed

lemma occupied_tidy: "list_all occupied (panels t) \<Longrightarrow> tidy t \<and> \<not> is_empty_Panel t"
  by (induction t) (auto simp: occupied_def)

lemma tidy_no_empty_panel: "tidy t \<longleftrightarrow> no_empty_panel_below_root t"
proof
  assume "tidy t"
  then show "no_empty_panel_below_root t"
    unfolding no_empty_panel_below_root_def using tidy_panels[of t] by (cases t) auto
next
  assume "no_empty_panel_below_root t"
  then show "tidy t"
    unfolding no_empty_panel_below_root_def using occupied_tidy[of t] by (cases t) auto
qed

lemma distinct_no_twin: "distinct (node_ids t) \<Longrightarrow> no_twin_children t"
proof (induction t)
  case (CDockPanel i fs)
  then show ?case by simp
next
  case (CDockSplitter i p s d z)
  then have "set (node_ids p) \<inter> set (node_ids s) = {}" by auto
  then have "item_id p \<noteq> item_id s"
    using item_id_in_node_ids[of p] item_id_in_node_ids[of s] by (metis disjoint_iff)
  with CDockSplitter show ?case by auto
qed

lemma step_ok:
  assumes dist: "distinct (node_ids layout)"
    and iss: "\<forall>i \<in> set (node_ids layout). issued c i"
    and tidy: "tidy layout"
    and res: "resolves layout call"
    and clo: "closure_ok rendered c call"
  shows "\<exists>t' c'. step (layout, c) call = Some (t', c') \<and>
           distinct (node_ids t') \<and> (\<forall>i \<in> set (node_ids t'). issued c' i) \<and> tidy t'"
proof (cases call)
  case (Split formId dest dir)
  then show ?thesis using split_ok[OF dist iss tidy, of formId dest dir] by simp
next
  case (Stack closure formId panelId)
  show ?thesis
  proof (cases closure)
    case Current
    with Stack res stack_Current_ok[OF dist iss, of Current formId panelId] show ?thesis by auto
  next
    case (Stale old)
    with Stack clo have "distinct (node_ids old)" "\<forall>i \<in> set (node_ids old). issued c i"
      by (simp_all add: list_all_iff)
    from stack_Stale_ok[OF dist iss tidy _ this, of formId panelId] Stack Stale res
    show ?thesis by auto
  qed
qed

lemma run_ok:
  "distinct (node_ids layout) \<Longrightarrow> \<forall>i \<in> set (node_ids layout). issued c i \<Longrightarrow> tidy layout \<Longrightarrow>
     all_resolve_from rendered (layout, c) calls \<Longrightarrow>
     \<exists>states. run (layout, c) calls = Some states \<and> length states = length calls \<and>
       (\<forall>st \<in> set states. distinct (node_ids (fst st)) \<and> tidy (fst st))"
proof (induction calls arbitrary: layout c rendered)
  case Nil
  then show ?case by simp
next
  case (Cons a calls)
  obtain renders call where a: "a = (renders, call)" by (cases a)
  from Cons.prems(4) a have res: "resolves layout call"
    and clo: "closure_ok (rendered \<or> 0 < renders) (c + renders) call" by simp_all
  have iss: "\<forall>i \<in> set (node_ids layout). issued (c + renders) i"
    using Cons.prems(2) issued_mono[of c _ "c + renders"] by auto
  from step_ok[OF Cons.prems(1) iss Cons.prems(3) res clo] obtain t' c' where
    st: "step (layout, c + renders) call = Some (t', c')" and
    ok: "distinct (node_ids t')" "\<forall>i \<in> set (node_ids t'). issued c' i" "tidy t'"
    by blast
  from Cons.prems(4) st a have "all_resolve_from False (t', c') calls" by simp
  from Cons.IH[OF ok this] obtain states where
    "run (t', c') calls = Some states" "length states = length calls"
    "\<forall>st \<in> set states. distinct (node_ids (fst st)) \<and> tidy (fst st)" by blast
  with st ok a show ?case by auto
qed

subsection \<open>Stacking from the current render\<close>

text \<open>
  When the form id resolves (to \<open>form\<close>, the first form with that id, in the panel
  \<open>srcId\<close>) and the destination id resolves to a panel of a tree with unique node ids,
  \<open>dockForm\<close> and the hook's \<open>stack\<close> in a callback of the current render return the
  same tree, in which the destination panel holds its former forms in their order
  followed by \<open>form\<close>; when the source is the destination itself, \<open>form\<close> is taken
  out of that list and put at its end. A different source panel holds its former forms
  without \<open>form\<close>, or, when that leaves it empty, is no longer in the tree.
\<close>

lemma dockForm_appends_form:
  assumes dist: "distinct (node_ids root)"
    and form: "findForm formId root [] = Some (form, source)"
    and src: "deref root source = Some (CDockPanel srcId sforms)"
    and dest: "findLayoutItem panelId root [] None None = Some (destination, parent, grandparent)"
    and dst: "deref root destination = Some (CDockPanel panelId dforms)"
  shows "\<exists>root'. dockForm root formId panelId = Some (Inr root')
           \<and> stack Current root formId panelId = Some (Inr root')
           \<and> map_of (panels root') panelId =
               Some ((if srcId = panelId then remove1 form dforms else dforms) @ [form])
           \<and> (srcId \<noteq> panelId \<longrightarrow>
                map_of (panels root') srcId =
                  (if remove1 form sforms = [] then None else Some (remove1 form sforms)))"
proof -
  let ?rest = "remove1 form sforms"
  let ?root1 = "set_forms source ?rest root"
  let ?fs = "(if srcId = panelId then remove1 form dforms else dforms)"
  let ?root2 = "set_forms destination (?fs @ [form]) ?root1"
  from findForm_root[OF form] src
  have found: "find (\<lambda>f. form_id f = formId) sforms = Some form" by auto
  have root1: "?root1 = assign source (CDockPanel srcId ?rest) root"
    using src by (simp add: set_forms_def)
  have ex: "extractForm root formId = (?root1, Some (form, source))"
    using form src found by (simp add: extractForm_def forms_at_def splice1_findIndex)
  have same: "source = destination \<longleftrightarrow> srcId = panelId"
    using deref_unique_id[OF dist src dst] src dst by auto
  have same_forms: "srcId = panelId \<Longrightarrow> sforms = dforms"
    using same src dst by auto
  have d1: "deref ?root1 destination = Some (CDockPanel panelId ?fs)"
    unfolding root1 using deref_assign_Panel_other[OF src dst, of ?rest] same same_forms
    by auto
  have root2: "?root2 = assign destination (CDockPanel panelId (?fs @ [form])) ?root1"
    using d1 by (simp add: set_forms_def)
  have d2: "deref ?root2 destination = Some (CDockPanel panelId (?fs @ [form]))"
    unfolding root2 using d1 by (rule deref_assign)
  have dist2: "distinct (node_ids ?root2)" using dist by simp
  have dock: "dockForm root formId panelId = Some (Inr (collapse ?root2))"
    using ex dest d1 dist2 by (simp add: dockForm_def forms_at_def reclaim_collapse)
  have "(panelId, ?fs @ [form]) \<in> set (panels ?root2)" using d2 by (rule deref_panels)
  then have "(panelId, ?fs @ [form]) \<in> set (filter occupied (panels ?root2))"
    by (simp add: occupied_def)
  then have "filter occupied (panels ?root2) \<noteq> []" by (rule in_set_nonempty)
  then have pc: "panels (collapse ?root2) = filter occupied (panels ?root2)"
    by (rule panels_collapse_occupied)
  have dp: "distinct (map fst (panels ?root2))" using dist2 by (rule distinct_panels)
  have at_dest: "map_of (panels (collapse ?root2)) panelId = Some (?fs @ [form])"
    unfolding pc map_of_filter_occupied[OF dp] using panel_lookup[OF dist2 d2] by simp
  have at_src: "map_of (panels (collapse ?root2)) srcId =
                  (if ?rest = [] then None else Some ?rest)" if ne: "srcId \<noteq> panelId"
  proof -
    have s1: "deref ?root1 source = Some (CDockPanel srcId ?rest)"
      unfolding root1 using src by (rule deref_assign)
    have "deref ?root2 source = Some (CDockPanel srcId ?rest)"
      unfolding root2 using deref_assign_Panel_other[OF d1 s1, of "?fs @ [form]"] same ne
      by auto
    from panel_lookup[OF dist2 this] show ?thesis
      unfolding pc map_of_filter_occupied[OF dp] by simp
  qed
  show ?thesis
    using dock at_dest at_src by (auto simp: stack_dockForm)
qed

lemma dockForm_appends_form_example:
  "distinct (node_ids (CDockSplitter ''dms-5''
       (CDockPanel ''dmp-1'' [casenote])
       (CDockPanel ''dmp-4'' [chat, video]) Vertical 50))
   \<and> findForm ''dmf-2'' (CDockSplitter ''dms-5''
       (CDockPanel ''dmp-1'' [casenote])
       (CDockPanel ''dmp-4'' [chat, video]) Vertical 50) [] = Some (casenote, [Primary])
   \<and> findLayoutItem ''dmp-4'' (CDockSplitter ''dms-5''
       (CDockPanel ''dmp-1'' [casenote])
       (CDockPanel ''dmp-4'' [chat, video]) Vertical 50) [] None None
       = Some ([Secondary], Some [], None)
   \<and> stack Current (CDockSplitter ''dms-5''
       (CDockPanel ''dmp-1'' [casenote])
       (CDockPanel ''dmp-4'' [chat, video]) Vertical 50) ''dmf-2'' ''dmp-4''
       = Some (Inr (CDockPanel ''dmp-4'' [chat, video, casenote]))
   \<and> findForm ''dmf-3'' (CDockPanel ''dmp-4'' [chat, video]) [] = Some (chat, [])
   \<and> findLayoutItem ''dmp-4'' (CDockPanel ''dmp-4'' [chat, video]) [] None None
       = Some ([], None, None)
   \<and> stack Current (CDockPanel ''dmp-4'' [chat, video]) ''dmf-3'' ''dmp-4''
       = Some (Inr (CDockPanel ''dmp-4'' [video, chat]))"
  using dockForm_appends_form [of "CDockSplitter ''dms-5''
       (CDockPanel ''dmp-1'' [casenote])
       (CDockPanel ''dmp-4'' [chat, video]) Vertical 50" "''dmf-2''" casenote "[Primary]"
       "''dmp-1''" "[casenote]" "''dmp-4''" "[Secondary]" "Some []" None "[chat, video]"]
     dockForm_appends_form [of "CDockPanel ''dmp-4'' [chat, video]" "''dmf-3''" chat "[]"
       "''dmp-4''" "[chat, video]" "''dmp-4''" "[]" None None "[chat, video]"]
  by (simp add: casenote_def chat_def video_def stack_def forms_at_def set_forms_def
        splice1_def reclaim_def occupyFreeSpace.simps replace_def)

subsection \<open>Outside the data model: duplicate ids\<close>

text \<open>
  The pass finds the splitter it collapses by searching the tree for its id. When two
  splitters carry the same id, the search stops at the first one, and the pass rewrites
  the slot of that one: forms are lost, and a second pass changes the tree again. The
  statements about the pass are therefore about trees with unique node ids, which is
  what the id counter gives.
\<close>

lemma reclaim_with_duplicate_ids:
  "reclaim (CDockSplitter ''dms-9''
      (CDockSplitter ''dms-5'' (CDockPanel ''dmp-1'' [casenote]) (CDockPanel ''dmp-4'' [chat]) Vertical 50)
      (CDockSplitter ''dms-5'' (CDockPanel ''dmp-7'' []) (CDockPanel ''dmp-8'' [video]) Vertical 50)
      Horizontal 50)
   = Some (CDockSplitter ''dms-9'' (CDockPanel ''dmp-8'' [video])
      (CDockSplitter ''dms-5'' (CDockPanel ''dmp-7'' []) (CDockPanel ''dmp-8'' [video]) Vertical 50)
      Horizontal 50)
  \<and> reclaim (CDockSplitter ''dms-9'' (CDockPanel ''dmp-8'' [video])
      (CDockSplitter ''dms-5'' (CDockPanel ''dmp-7'' []) (CDockPanel ''dmp-8'' [video]) Vertical 50)
      Horizontal 50)
   = Some (CDockSplitter ''dms-9'' (CDockPanel ''dmp-8'' [video]) (CDockPanel ''dmp-8'' [video])
      Horizontal 50)"
  by code_simp

subsection \<open>The hook's clone\<close>

text \<open>
  When the React nodes of the forms survive serialisation (\<open>enc\<close> is total and
  injective), the value \<open>useDockManager.clone\<close> returns determines the layout: ids,
  forms and their order, directions and sizes.
\<close>

lemma formJSON_inj:
  assumes "inj e" "formJSON (\<lambda>x. Some (e x)) f = formJSON (\<lambda>x. Some (e x)) g"
  shows "f = g"
proof -
  have e: "\<And>x y. e x = e y \<Longrightarrow> x = y" using assms(1) by (auto dest: injD)
  obtain i1 t1 c1 k1 where f: "f = \<lparr>form_id = i1, title = t1, children = c1, icon = k1\<rparr>"
    by (cases f) auto
  obtain i2 t2 c2 k2 where g: "g = \<lparr>form_id = i2, title = t2, children = c2, icon = k2\<rparr>"
    by (cases g) auto
  from assms(2) show ?thesis
    unfolding f g formJSON_def optional_def
    by (cases c1; cases c2; cases k1; cases k2) (auto dest: e)
qed

lemma map_formJSON_inj:
  assumes "inj e"
  shows "map (formJSON (\<lambda>x. Some (e x))) fs = map (formJSON (\<lambda>x. Some (e x))) gs \<Longrightarrow> fs = gs"
proof (induction fs arbitrary: gs)
  case Nil
  then show ?case by simp
next
  case (Cons f fs)
  then show ?case using formJSON_inj[OF assms] by (cases gs) auto
qed

lemma directionJSON_inj: "directionJSON d = directionJSON e \<Longrightarrow> d = e"
  by (cases d; cases e) auto

lemma useDockManager_clone_determines_layout:
  assumes "inj e"
  shows "useDockManager_clone (\<lambda>x. Some (e x)) a = useDockManager_clone (\<lambda>x. Some (e x)) b
           \<Longrightarrow> a = b"
  unfolding useDockManager_clone_def
proof (induction a arbitrary: b)
  case (CDockPanel i fs)
  then show ?case using map_formJSON_inj[OF assms] by (cases b) auto
next
  case (CDockSplitter i p s d z)
  then show ?case using directionJSON_inj by (cases b) auto
qed

section \<open>The claims\<close>

subsection \<open>C1: a failed call leaves the tree as it was\<close>

text \<open>
  C1 says that a \<open>split\<close> or \<open>stack\<close> whose form id or destination id does not
  resolve leaves the tree exactly as it was. The code takes the form out of its panel
  before it looks the destination up, and does not put it back when the destination is
  missing: on a single panel holding one form, a call with an unknown destination
  returns the panel without the form, in both \<open>CDockManager\<close> functions and in both
  functions of the hook.
\<close>

theorem unresolved_destination_loses_form:
  "dockForm (CDockPanel ''dmp-1'' [casenote]) ''dmf-2'' ''dmp-9'' = Some (Inr (CDockPanel ''dmp-1'' []))
   \<and> splitPanel (CDockPanel ''dmp-1'' [casenote]) ''dmf-2'' ''dmp-9'' Horizontal 2
       = Some (CDockPanel ''dmp-1'' [], 2)
   \<and> stack Current (CDockPanel ''dmp-1'' [casenote]) ''dmf-2'' ''dmp-9''
       = Some (Inr (CDockPanel ''dmp-1'' []))
   \<and> split (CDockPanel ''dmp-1'' [casenote]) ''dmf-2'' ''dmp-9'' Horizontal 2
       = Some (CDockPanel ''dmp-1'' [], 2)"
  by code_simp

subsection \<open>C2: the invariants after every call\<close>

text \<open>
  C2: start from a layout of the hook that satisfies the invariants (unique node ids, all
  of them handed out by the hook's counter, no empty panel below the root) and make any
  sequence of \<open>split\<close> and \<open>stack\<close> calls, with any number of renders in between,
  whose form ids resolve and whose destination ids resolve to panels in the layout of
  the moment. A \<open>stack\<close> may be the callback of the current render or an older one,
  whose \<open>layout\<close> is then any tree with unique node ids handed out by the counter. Then
  every call returns, and the layout after each call has unique node ids, no splitter
  whose two children have the same id, and no empty panel except possibly a root that
  is the only node.
\<close>

theorem split_stack_keep_invariants:
  assumes "distinct (node_ids layout)"
    and "\<forall>i \<in> set (node_ids layout). issued counter i"
    and "no_empty_panel_below_root layout"
    and "all_resolve (layout, counter) calls"
  shows "\<exists>states. run (layout, counter) calls = Some states
           \<and> length states = length calls
           \<and> (\<forall>st \<in> set states.
                 distinct (node_ids (fst st))
                 \<and> no_twin_children (fst st)
                 \<and> no_empty_panel_below_root (fst st))"
proof -
  from assms(3) have "tidy layout" by (simp add: tidy_no_empty_panel)
  from run_ok[OF assms(1,2) this assms(4)[unfolded all_resolve_def]] obtain states where
    "run (layout, counter) calls = Some states" "length states = length calls"
    "\<forall>st \<in> set states. distinct (node_ids (fst st)) \<and> tidy (fst st)" by blast
  then show ?thesis by (auto simp: tidy_no_empty_panel distinct_no_twin)
qed

theorem split_stack_keep_invariants_witness:
  "distinct (node_ids desk)
   \<and> list_all (issued 6) (node_ids desk)
   \<and> list_all occupied (panels desk)
   \<and> all_resolve (desk, 6)
         [(0, Split ''dmf-6'' ''dmp-1'' Horizontal), (1, Stack Current ''dmf-2'' ''dmp-4'')]
   \<and> run (desk, 6)
         [(0, Split ''dmf-6'' ''dmp-1'' Horizontal), (1, Stack Current ''dmf-2'' ''dmp-4'')] =
       Some [(CDockSplitter ''dms-5''
                (CDockSplitter ''dms-8'' (CDockPanel ''dmp-1'' [casenote])
                   (CDockPanel ''dmp-7'' [video]) Horizontal 50)
                (CDockPanel ''dmp-4'' [chat]) Vertical 50, 8),
             (CDockSplitter ''dms-5'' (CDockPanel ''dmp-7'' [video])
                (CDockPanel ''dmp-4'' [chat, casenote]) Vertical 50, 9)]
   \<and> (\<exists>states. run (desk, 6)
           [(0, Split ''dmf-6'' ''dmp-1'' Horizontal), (1, Stack Current ''dmf-2'' ''dmp-4'')]
             = Some states
          \<and> length states = 2
          \<and> (\<forall>st \<in> set states.
                 distinct (node_ids (fst st))
                 \<and> no_twin_children (fst st)
                 \<and> no_empty_panel_below_root (fst st)))
   \<and> all_resolve (CDockPanel ''dmp-1'' [casenote, chat], 3)
         [(0, Split ''dmf-3'' ''dmp-1'' Horizontal),
          (0, Stack (Stale (CDockPanel ''dmp-1'' [casenote])) ''dmf-2'' ''dmp-4'')]
   \<and> run (CDockPanel ''dmp-1'' [casenote, chat], 3)
         [(0, Split ''dmf-3'' ''dmp-1'' Horizontal),
          (0, Stack (Stale (CDockPanel ''dmp-1'' [casenote])) ''dmf-2'' ''dmp-4'')] =
       Some [(CDockSplitter ''dms-5'' (CDockPanel ''dmp-1'' [casenote])
                (CDockPanel ''dmp-4'' [chat]) Horizontal 50, 5),
             (CDockPanel ''dmp-1'' [], 5)]
   \<and> (\<exists>states. run (CDockPanel ''dmp-1'' [casenote, chat], 3)
           [(0, Split ''dmf-3'' ''dmp-1'' Horizontal),
            (0, Stack (Stale (CDockPanel ''dmp-1'' [casenote])) ''dmf-2'' ''dmp-4'')]
             = Some states
          \<and> length states = 2
          \<and> (\<forall>st \<in> set states.
                 distinct (node_ids (fst st))
                 \<and> no_twin_children (fst st)
                 \<and> no_empty_panel_below_root (fst st)))"
proof -
  let ?fresh = "[(0, Split ''dmf-6'' ''dmp-1'' Horizontal), (1, Stack Current ''dmf-2'' ''dmp-4'')]
                  :: (nat \<times> unit call) list"
  let ?start = "CDockPanel ''dmp-1'' [casenote, chat]"
  let ?stale = "[(0, Split ''dmf-3'' ''dmp-1'' Horizontal),
                 (0, Stack (Stale (CDockPanel ''dmp-1'' [casenote])) ''dmf-2'' ''dmp-4'')]"
  have h1: "distinct (node_ids desk)" by code_simp
  have h2: "\<forall>i \<in> set (node_ids desk). issued 6 i" by code_simp
  have h3: "no_empty_panel_below_root desk" by code_simp
  have h4: "all_resolve (desk, 6) ?fresh" by code_simp
  have r: "run (desk, 6) ?fresh =
       Some [(CDockSplitter ''dms-5''
                (CDockSplitter ''dms-8'' (CDockPanel ''dmp-1'' [casenote])
                   (CDockPanel ''dmp-7'' [video]) Horizontal 50)
                (CDockPanel ''dmp-4'' [chat]) Vertical 50, 8),
             (CDockSplitter ''dms-5'' (CDockPanel ''dmp-7'' [video])
                (CDockPanel ''dmp-4'' [chat, casenote]) Vertical 50, 9)]"
    by code_simp
  have h2': "list_all (issued 6) (node_ids desk)" using h2 by (simp add: list_all_iff)
  have h3': "list_all occupied (panels desk)" by code_simp
  have k1: "distinct (node_ids ?start)" by code_simp
  have k2: "\<forall>i \<in> set (node_ids ?start). issued 3 i" by code_simp
  have k3: "no_empty_panel_below_root ?start" by code_simp
  have k4: "all_resolve (?start, 3) ?stale" by code_simp
  have q: "run (?start, 3) ?stale =
       Some [(CDockSplitter ''dms-5'' (CDockPanel ''dmp-1'' [casenote])
                (CDockPanel ''dmp-4'' [chat]) Horizontal 50, 5),
             (CDockPanel ''dmp-1'' [], 5)]"
    by code_simp
  from split_stack_keep_invariants[OF h1 h2 h3 h4] split_stack_keep_invariants[OF k1 k2 k3 k4]
    h1 h2' h3' h4 r k4 q
  show ?thesis by simp
qed

subsection \<open>C3: splitting a single-form panel against itself\<close>

text \<open>
  C3 says that \<open>split(F.id, P.id, direction)\<close> is a no-op when \<open>P\<close> holds exactly the
  form \<open>F\<close>. The hook's \<open>split\<close> has the guard (\<open>split_single_form_guard\<close>);
  \<open>CDockManager.splitPanel\<close> has none: it empties the panel, pairs it with a new panel
  under a new splitter, and the reclamation then drops the emptied original, so the
  result is a panel with a new id and the counter has moved by two.
\<close>

theorem splitPanel_single_form_self_split:
  "splitPanel (CDockPanel ''dmp-1'' [casenote]) ''dmf-2'' ''dmp-1'' Horizontal 2
     = Some (CDockPanel ''dmp-3'' [casenote], 4)"
  by code_simp

subsection \<open>C4: a splitter over one node twice\<close>

text \<open>
  C4 says that \<open>createSplitter\<close> fails with \<open>InvalidTopology\<close> when both children have the
  same id. Neither \<open>createSplitter\<close> compares the ids or can fail: for every pair of
  children, equal ids or not, the result is a splitter with the next \<open>dms-\<close> id that
  holds the two children as given.
\<close>

theorem createSplitter_never_fails:
  "createSplitter primary secondary direction sz counter =
     (CDockSplitter (''dms-'' @ decimal (Suc counter)) primary secondary direction sz, Suc counter)"
  by (simp add: createSplitter_def hash_def)

text \<open>C4 as stated fails: the same panel twice gives a splitter, not a failure.\<close>

theorem createSplitter_same_id_counterexample:
  "createSplitter (CDockPanel ''dmp-1'' ([] :: unit CDockForm list)) (CDockPanel ''dmp-1'' [])
      Horizontal 50 1 =
     (CDockSplitter ''dms-2'' (CDockPanel ''dmp-1'' []) (CDockPanel ''dmp-1'' []) Horizontal 50, 2)"
  by code_simp

subsection \<open>C5: the reclamation pass is idempotent\<close>

text \<open>
  C5: running the reclamation pass a second time changes nothing. The pass finds the
  splitter it collapses by its id, so the statement is about the trees of the data model,
  whose node ids are unique: on such a tree the pass returns, and on its result it
  returns that result again.
\<close>

theorem reclaim_idempotent:
  "distinct (node_ids root) \<Longrightarrow>
     \<exists>root'. reclaim root = Some root' \<and> reclaim root' = Some root'"
  by (simp add: reclaim_collapse collapse_distinct collapse_idem)

theorem reclaim_idempotent_witness:
  "distinct (node_ids (CDockSplitter ''dms-5'' (CDockPanel ''dmp-1'' [casenote])
       (CDockSplitter ''dms-4'' (CDockPanel ''dmp-2'' []) (CDockPanel ''dmp-3'' []) Vertical 50)
       Horizontal 50))
   \<and> reclaim (CDockSplitter ''dms-5'' (CDockPanel ''dmp-1'' [casenote])
       (CDockSplitter ''dms-4'' (CDockPanel ''dmp-2'' []) (CDockPanel ''dmp-3'' []) Vertical 50)
       Horizontal 50) = Some (CDockPanel ''dmp-1'' [casenote])
   \<and> reclaim (CDockPanel ''dmp-1'' [casenote]) = Some (CDockPanel ''dmp-1'' [casenote])"
  using reclaim_idempotent [of "CDockSplitter ''dms-5'' (CDockPanel ''dmp-1'' [casenote])
       (CDockSplitter ''dms-4'' (CDockPanel ''dmp-2'' []) (CDockPanel ''dmp-3'' []) Vertical 50)
       Horizontal 50"]
  by (simp add: reclaim_def occupyFreeSpace.simps replace_def)

subsection \<open>C6: both children empty\<close>



subsection \<open>C7: stack appends the form to the destination\<close>

text \<open>
  C7 says that \<open>stack(F.id, D.id)\<close>, when both ids resolve, takes \<open>F\<close> out of its panel
  and appends it to \<open>D\<close>. \<open>CDockManager.dockForm\<close> does, and so does the hook's
  \<open>stack\<close> in a callback of the current render (\<open>dockForm_appends_form\<close>). But the
  hook's \<open>stack\<close> looks for the form in, and reclaims, the \<open>layout\<close> of its callback,
  not the updater's argument as \<open>split\<close> does. Called in the same handler after a
  \<open>split\<close>, its \<open>layout\<close> is the old root: on a panel \<open>dmp-1\<close> with two forms,
  \<open>split\<close> moves the second form into a new panel \<open>dmp-4\<close> beside it; a following
  \<open>stack\<close> of the first form onto \<open>dmp-4\<close>, where both ids resolve, then publishes the
  emptied old root \<open>dmp-1\<close>: the destination is gone, and both forms with it.
\<close>

theorem stale_stack_loses_forms:
  "split (CDockPanel ''dmp-1'' [casenote, chat]) ''dmf-3'' ''dmp-1'' Horizontal 3
     = Some (CDockSplitter ''dms-5'' (CDockPanel ''dmp-1'' [casenote])
               (CDockPanel ''dmp-4'' [chat]) Horizontal 50, 5)
   \<and> findForm ''dmf-2'' (CDockSplitter ''dms-5'' (CDockPanel ''dmp-1'' [casenote])
         (CDockPanel ''dmp-4'' [chat]) Horizontal 50) [] = Some (casenote, [Primary])
   \<and> resolves_to_panel ''dmp-4'' (CDockSplitter ''dms-5'' (CDockPanel ''dmp-1'' [casenote])
         (CDockPanel ''dmp-4'' [chat]) Horizontal 50)
   \<and> stack (Stale (CDockPanel ''dmp-1'' [casenote]))
         (CDockSplitter ''dms-5'' (CDockPanel ''dmp-1'' [casenote])
            (CDockPanel ''dmp-4'' [chat]) Horizontal 50) ''dmf-2'' ''dmp-4''
     = Some (Inr (CDockPanel ''dmp-1'' []))"
  by code_simp

subsection \<open>C8: clone\<close>

text \<open>
  C8 says that \<open>clone\<close> returns a deep copy that keeps every id, the order of the forms
  and all attributes. \<open>useDockManager.clone\<close> parses what it has serialised;
  \<open>CDockManager.clone\<close> serialises the layout for the console and then parses the text
  \<open>{}\<close>: for every layout its result is the empty object, which is not the layout's
  value (that one has an \<open>id\<close> at least).
\<close>

theorem CDockManager_clone_is_empty_object:
  "CDockManager_clone enc layout = JObject [] \<and> CDockManager_clone enc layout \<noteq> toJSON enc layout"
  by (cases layout) (simp_all add: CDockManager_clone_def)

subsection \<open>C9: unresolved ids are reported as typed failures\<close>




subsection \<open>C10: the reclamation pass keeps every form\<close>

text \<open>
  C10: on a tree with unique node ids the pass returns a tree with the same multiset of
  forms; every panel of the result is a panel of the input with the same form list in
  the same order; and the panels that hold forms are the same before and after, in the
  same order: only splitters and empty panels disappear.
\<close>

theorem reclaim_preserves_forms:
  "distinct (node_ids root) \<Longrightarrow>
     \<exists>root'. reclaim root = Some root'
       \<and> mset (all_forms root') = mset (all_forms root)
       \<and> set (panels root') \<subseteq> set (panels root)
       \<and> filter occupied (panels root') = filter occupied (panels root)"
  by (simp add: reclaim_collapse all_forms_collapse panels_collapse panels_collapse_subset)

theorem reclaim_preserves_forms_witness:
  "distinct (node_ids (CDockSplitter ''dms-5'' (CDockPanel ''dmp-1'' [casenote])
       (CDockSplitter ''dms-4'' (CDockPanel ''dmp-2'' []) (CDockPanel ''dmp-3'' []) Vertical 50)
       Horizontal 50))
   \<and> reclaim (CDockSplitter ''dms-5'' (CDockPanel ''dmp-1'' [casenote])
       (CDockSplitter ''dms-4'' (CDockPanel ''dmp-2'' []) (CDockPanel ''dmp-3'' []) Vertical 50)
       Horizontal 50) = Some (CDockPanel ''dmp-1'' [casenote])
   \<and> mset (all_forms (CDockPanel ''dmp-1'' [casenote])) = {#casenote#}
   \<and> mset (all_forms (CDockSplitter ''dms-5'' (CDockPanel ''dmp-1'' [casenote])
       (CDockSplitter ''dms-4'' (CDockPanel ''dmp-2'' []) (CDockPanel ''dmp-3'' []) Vertical 50)
       Horizontal 50)) = {#casenote#}"
  using reclaim_preserves_forms [of "CDockSplitter ''dms-5'' (CDockPanel ''dmp-1'' [casenote])
       (CDockSplitter ''dms-4'' (CDockPanel ''dmp-2'' []) (CDockPanel ''dmp-3'' []) Vertical 50)
       Horizontal 50"]
  by (simp add: reclaim_def occupyFreeSpace.simps replace_def all_forms_def)

end
